theory Spec2Isabelle
  imports Main "HOL-Library.Multiset"
begin

section \<open>Strings and the JavaScript built-ins the program calls\<close>

text \<open>
  A JavaScript string is modelled as a \<^typ>\<open>string\<close>: a list of code units, each below 256.
  Numbers are the results of \<open>parseInt\<close>: the mathematical integer that \<open>parseInt\<close> reads is
  kept exact (\<^typ>\<open>int\<close>) and the conversion to a JavaScript Number is a parameter
  \<open>num\<close> of the functions that compare numbers. The conversion that the language applies
  is \<open>toNumber\<close> below; what is proved for every \<open>num\<close> holds for it.
\<close>

text \<open>\<open>s.split(c)\<close> for a one-character separator: always at least one piece.\<close>

fun split :: "char \<Rightarrow> string \<Rightarrow> string list" where
  "split c [] = [[]]"
| "split c (x # xs) =
     (if x = c then [] # split c xs
      else (case split c xs of [] \<Rightarrow> [[x]] | y # ys \<Rightarrow> (x # y) # ys))"

text \<open>\<open>xs.join(sep)\<close>.\<close>

fun join :: "string \<Rightarrow> string list \<Rightarrow> string" where
  "join sep [] = []"
| "join sep [x] = x"
| "join sep (x # y # ys) = x @ sep @ join sep (y # ys)"

text \<open>
  The white space of \<open>\s\<close> in a regular expression and of the trimming that \<open>parseInt\<close>
  does first: TAB, LF, VT, FF, CR, SPACE and NBSP are the ones below 256.
\<close>

definition is_space :: "char \<Rightarrow> bool" where
  "is_space c \<longleftrightarrow>
     c \<in> set [CHR 0x09, CHR 0x0A, CHR 0x0B, CHR 0x0C, CHR 0x0D, CHR 0x20, CHR 0xA0]"

definition is_digit :: "char \<Rightarrow> bool" where
  "is_digit c \<longleftrightarrow> c \<in> set ''0123456789''"

text \<open>The value of a decimal digit: its code less the code of \<open>0\<close>.\<close>

definition digit_value :: "char \<Rightarrow> nat" where
  "digit_value c = of_char c - 48"

definition digits_value :: "string \<Rightarrow> nat" where
  "digits_value ds = foldl (\<lambda>a c. 10 * a + digit_value c) 0 ds"

text \<open>
  \<open>parseInt(s, 10)\<close>: leading white space is skipped, one sign is read, then the longest
  run of decimal digits; what follows the digits is ignored. With no digit the result is
  \<open>NaN\<close>, here \<open>None\<close>.
\<close>

definition parseInt :: "string \<Rightarrow> int option" where
  "parseInt s =
     (let s1 = dropWhile is_space s;
          sign = (if s1 \<noteq> [] \<and> hd s1 = CHR ''-'' then - 1 else (1::int));
          s2 = (if s1 \<noteq> [] \<and> (hd s1 = CHR ''+'' \<or> hd s1 = CHR ''-'') then tl s1 else s1);
          z = takeWhile is_digit s2
      in if z = [] then None else Some (sign * int (digits_value z)))"

text \<open>\<open>parseInt(s, 10) || 0\<close>: \<open>NaN\<close> and zero are falsy, so both give the Number 0.\<close>

definition parseInt_or_0 :: "(int \<Rightarrow> 'n) \<Rightarrow> string \<Rightarrow> 'n" where
  "parseInt_or_0 num s = (case parseInt s of None \<Rightarrow> num 0 | Some z \<Rightarrow> num z)"

text \<open>
  The Numbers that \<open>parseInt\<close> returns: integers that a double represents, and the two
  infinities, in the order that \<open><\<close> and \<open>>\<close> give them.
\<close>

datatype number = NegInfinity | Finite int | Infinity

instantiation number :: linorder
begin

definition less_eq_number :: "number \<Rightarrow> number \<Rightarrow> bool" where
  "x \<le> y \<longleftrightarrow>
     (case x of
        NegInfinity \<Rightarrow> True
      | Finite a \<Rightarrow> (case y of NegInfinity \<Rightarrow> False | Finite b \<Rightarrow> a \<le> b | Infinity \<Rightarrow> True)
      | Infinity \<Rightarrow> y = Infinity)"

definition less_number :: "number \<Rightarrow> number \<Rightarrow> bool" where
  "x < y \<longleftrightarrow> x \<le> y \<and> \<not> y \<le> (x::number)"

instance
  by standard (auto simp: less_eq_number_def less_number_def split: number.splits)

end

text \<open>The number of binary digits of \<open>n\<close>.\<close>

fun bit_length :: "nat \<Rightarrow> nat" where
  "bit_length n = (if n = 0 then 0 else Suc (bit_length (n div 2)))"

declare bit_length.simps [simp del]

text \<open>
  The double nearest to a natural number, as a natural number: a double keeps 53
  significant binary digits; what is cut off rounds to the nearest, and a tie to the even
  one.
\<close>

definition round_to_double :: "nat \<Rightarrow> nat" where
  "round_to_double n =
     (if n < 2 ^ 53 then n
      else
        (let e = bit_length n - 53; q = n div 2 ^ e; r = n mod 2 ^ e; half = 2 ^ (e - 1)
         in if r > half \<or> (r = half \<and> odd q) then (q + 1) * 2 ^ e else q * 2 ^ e))"

text \<open>
  The Number for the integer that \<open>parseInt\<close> has read: the nearest double, an infinity
  when that reaches \<open>2^1024\<close>.
\<close>

definition toNumber :: "int \<Rightarrow> number" where
  "toNumber z =
     (let m = round_to_double (nat \<bar>z\<bar>)
      in if m \<ge> 2 ^ 1024 then (if z < 0 then NegInfinity else Infinity)
         else Finite (if z < 0 then - int m else int m))"

section \<open>Version comparison\<close>

text \<open>
  \<open>parts[i] || 0\<close>: an index past the end reads \<open>undefined\<close>, which is falsy; a stored zero
  is falsy too and is replaced by the same zero.
\<close>

definition part_or_0 :: "(int \<Rightarrow> 'n) \<Rightarrow> 'n list \<Rightarrow> nat \<Rightarrow> 'n" where
  "part_or_0 num parts i = (if i < length parts then parts ! i else num 0)"

text \<open>The \<open>for\<close> loop of \<open>compareVersions\<close>, from index \<open>i\<close> on.\<close>

function compareVersions_loop ::
  "(int \<Rightarrow> 'n::linorder) \<Rightarrow> 'n list \<Rightarrow> 'n list \<Rightarrow> nat \<Rightarrow> int" where
  "compareVersions_loop num parts1 parts2 i =
     (if i < max (length parts1) (length parts2) then
        (let p1 = part_or_0 num parts1 i; p2 = part_or_0 num parts2 i
         in if p1 > p2 then 1
            else if p1 < p2 then - 1
            else compareVersions_loop num parts1 parts2 (Suc i))
      else 0)"
  by pat_completeness auto
termination
  by (relation "measure (\<lambda>(num, parts1, parts2, i). max (length parts1) (length parts2) - i)")
     auto

declare compareVersions_loop.simps [simp del]

definition compareVersions :: "(int \<Rightarrow> 'n::linorder) \<Rightarrow> string \<Rightarrow> string \<Rightarrow> int" where
  "compareVersions num v1 v2 =
     (let clean1 = hd (split CHR ''+'' (hd (split CHR ''-'' v1)));
          clean2 = hd (split CHR ''+'' (hd (split CHR ''-'' v2)));
          parts1 = map (parseInt_or_0 num) (split CHR ''.'' clean1);
          parts2 = map (parseInt_or_0 num) (split CHR ''.'' clean2)
      in compareVersions_loop num parts1 parts2 0)"

section \<open>The lockfile parser\<close>

record package =
  name :: string
  version :: string
  source :: "string option"

text \<open>
  The object \<open>currentPackage\<close> while its block is being read: each field is set or still
  \<open>undefined\<close>.
\<close>

record draft =
  draft_name :: "string option"
  draft_version :: "string option"
  draft_source :: "string option"

definition empty_draft :: draft where
  "empty_draft = \<lparr>draft_name = None, draft_version = None, draft_source = None\<rparr>"

text \<open>
  One match attempt of the regular expression \<open>key\s*=\s*"([^"]+)"\<close> at the start of \<open>s\<close>,
  giving the captured group. Neither \<open>=\<close> nor the quote is white space and the group
  excludes the quote, so the greedy match is the only one: the group is the longest
  quote-free run, it must be non-empty and a quote must follow it.
\<close>

definition match_quoted :: "string \<Rightarrow> string \<Rightarrow> string option" where
  "match_quoted key s =
     (if take (length key) s = key then
        (case dropWhile is_space (drop (length key) s) of
           [] \<Rightarrow> None
         | c # r \<Rightarrow>
             if c = CHR ''='' then
               (case dropWhile is_space r of
                  [] \<Rightarrow> None
                | q # t \<Rightarrow>
                    if q = CHR 0x22 \<and> takeWhile (\<lambda>x. x \<noteq> CHR 0x22) t \<noteq> []
                       \<and> dropWhile (\<lambda>x. x \<noteq> CHR 0x22) t \<noteq> []
                    then Some (takeWhile (\<lambda>x. x \<noteq> CHR 0x22) t)
                    else None)
             else None)
      else None)"

text \<open>A string-valued property used as a condition: \<open>undefined\<close> and \<open>""\<close> are falsy.\<close>

definition truthy :: "string option \<Rightarrow> bool" where
  "truthy v \<longleftrightarrow> (case v of None \<Rightarrow> False | Some s \<Rightarrow> s \<noteq> [])"

text \<open>
  \<open>if (currentPackage && currentPackage.name && currentPackage.version)
  packages.push(currentPackage)\<close>
\<close>

definition push_if_complete :: "draft option \<Rightarrow> package list \<Rightarrow> package list" where
  "push_if_complete currentPackage packages =
     (case currentPackage of
        None \<Rightarrow> packages
      | Some d \<Rightarrow>
          if truthy (draft_name d) \<and> truthy (draft_version d)
          then packages @ [\<lparr>name = the (draft_name d), version = the (draft_version d),
                            source = draft_source d\<rparr>]
          else packages)"

text \<open>The three assignments of the loop body for a line inside a block.\<close>

definition read_fields :: "draft \<Rightarrow> string \<Rightarrow> draft" where
  "read_fields d line =
     (let d1 = (case match_quoted ''name'' line of
                  Some v \<Rightarrow> d\<lparr>draft_name := Some v\<rparr> | None \<Rightarrow> d);
          d2 = (case match_quoted ''version'' line of
                  Some v \<Rightarrow> d1\<lparr>draft_version := Some v\<rparr> | None \<Rightarrow> d1)
      in (case match_quoted ''source'' line of
            Some v \<Rightarrow> d2\<lparr>draft_source := Some v\<rparr> | None \<Rightarrow> d2))"

text \<open>The \<open>for (const line of lines)\<close> loop with its two variables.\<close>

fun parseCargoLock_loop ::
  "package list \<Rightarrow> draft option \<Rightarrow> string list \<Rightarrow> package list \<times> draft option" where
  "parseCargoLock_loop packages currentPackage [] = (packages, currentPackage)"
| "parseCargoLock_loop packages currentPackage (line # lines) =
     (if line = ''[[package]]'' then
        parseCargoLock_loop (push_if_complete currentPackage packages) (Some empty_draft) lines
      else
        (case currentPackage of
           Some d \<Rightarrow> parseCargoLock_loop packages (Some (read_fields d line)) lines
         | None \<Rightarrow> parseCargoLock_loop packages None lines))"

text \<open>\<open>parseCargoLock\<close> from the file's content on: lines 123 to 151 of the source.\<close>

definition parseCargoLock_content :: "string \<Rightarrow> package list" where
  "parseCargoLock_content content =
     (let lines = split CHR 0x0A content;
          (packages, currentPackage) = parseCargoLock_loop [] None lines
      in push_if_complete currentPackage packages)"

section \<open>The services of Node.js\<close>

text \<open>
  The file system and the processes are a world \<open>'w\<close> that the program reaches only
  through these calls. A read that raises returns the message on the left; a write
  or a directory creation returns the message, if it raised, and the world it left;
  \<open>spawnSync\<close> returns what it raised or the object it returned, and the new world. The path
  functions of the \<open>path\<close> module are pure and taken as they are. Console output is not
  modelled.
\<close>

record spawn_result =
  status :: "int option"
  stderr :: "string option"

record 'w node =
  path_join :: "string list \<Rightarrow> string"
  path_resolve :: "string \<Rightarrow> string"
  existsSync :: "'w \<Rightarrow> string \<Rightarrow> bool"
  readFileSync :: "'w \<Rightarrow> string \<Rightarrow> string + string"
  mkdirSync :: "'w \<Rightarrow> string \<Rightarrow> string option \<times> 'w"
  writeFileSync :: "'w \<Rightarrow> string \<Rightarrow> string \<Rightarrow> string option \<times> 'w"
  spawnSync :: "'w \<Rightarrow> string \<Rightarrow> string list \<Rightarrow> string \<Rightarrow> bool \<Rightarrow> (string + spawn_result) \<times> 'w"

text \<open>The calls a run makes, in order.\<close>

datatype call =
    ExistsSync string
  | ReadFileSync string
  | MkdirSync string
  | WriteFileSync string string
  | SpawnSync string "string list" string bool

datatype js_error = TypeError string | FsError string

text \<open>
  \<open>parseCargoLock(lockPath)\<close>: \<open>null\<close> is \<open>None\<close>, a raised error is on the left.
\<close>

definition parseCargoLock ::
  "'w node \<Rightarrow> 'w \<Rightarrow> string \<Rightarrow> (js_error + package list option) \<times> call list" where
  "parseCargoLock nd w lockPath =
     (if \<not> existsSync nd w lockPath then (Inr None, [ExistsSync lockPath])
      else
        (case readFileSync nd w lockPath of
           Inl msg \<Rightarrow> (Inl (FsError msg), [ExistsSync lockPath, ReadFileSync lockPath])
         | Inr content \<Rightarrow>
             (Inr (Some (parseCargoLock_content content)),
              [ExistsSync lockPath, ReadFileSync lockPath])))"

section \<open>The compatibility table and the issue detector\<close>

text \<open>
  One entry of \<open>database.crates\<close>. The README gives the five fields; the detector supplies a
  default for \<open>reason\<close> and \<open>usedBy\<close>, so these may be missing, and it copies
  \<open>firstIncompatible\<close> as it finds it.
\<close>

record crate_info =
  maxCompatible :: string
  firstIncompatible :: "string option"
  reason :: "string option"
  usedBy :: "string list option"
  priority :: "string option"

record issue =
  issue_name :: string
  currentVersion :: string
  issue_maxCompatible :: string
  issue_firstIncompatible :: "string option"
  issue_reason :: string
  issue_usedBy :: "string list"
  issue_source :: "string option"

text \<open>
  \<open>database.crates\<close> is the object that \<open>JSON.parse\<close> builds, so \<open>crates[key]\<close> finds the
  table's own entry, or else a member that every plain object inherits from
  \<open>Object.prototype\<close>: a function, or for \<open>__proto__\<close> the prototype itself. Such a member
  is truthy and has no \<open>maxCompatible\<close>.
\<close>

definition object_prototype_keys :: "string list" where
  "object_prototype_keys =
     [''constructor'', ''__defineGetter__'', ''__defineSetter__'', ''hasOwnProperty'',
      ''__lookupGetter__'', ''__lookupSetter__'', ''isPrototypeOf'', ''propertyIsEnumerable'',
      ''toString'', ''valueOf'', ''__proto__'', ''toLocaleString'']"

datatype property = Undefined | Entry crate_info | Inherited

definition get_property :: "(string \<rightharpoonup> crate_info) \<Rightarrow> string \<Rightarrow> property" where
  "get_property crates key =
     (case crates key of
        Some crateInfo \<Rightarrow> Entry crateInfo
      | None \<Rightarrow> if key \<in> set object_prototype_keys then Inherited else Undefined)"

text \<open>
  The loop of \<open>findProblematicDeps\<close>. For an inherited member, \<open>crateInfo.maxCompatible\<close> is
  \<open>undefined\<close> and \<open>compareVersions\<close> raises a \<open>TypeError\<close> at \<open>v2.split\<close>; nothing catches it.
\<close>

fun findProblematicDeps_loop ::
  "(int \<Rightarrow> 'n::linorder) \<Rightarrow> (string \<rightharpoonup> crate_info) \<Rightarrow> issue list \<Rightarrow> package list
   \<Rightarrow> js_error + issue list" where
  "findProblematicDeps_loop num crates issues [] = Inr issues"
| "findProblematicDeps_loop num crates issues (pkg # packages) =
     (case get_property crates (name pkg) of
        Undefined \<Rightarrow> findProblematicDeps_loop num crates issues packages
      | Inherited \<Rightarrow> Inl (TypeError ''Cannot read properties of undefined (reading split)'')
      | Entry crateInfo \<Rightarrow>
          if compareVersions num (version pkg) (maxCompatible crateInfo) > 0 then
            findProblematicDeps_loop num crates
              (issues @
               [\<lparr>issue_name = name pkg,
                 currentVersion = version pkg,
                 issue_maxCompatible = maxCompatible crateInfo,
                 issue_firstIncompatible = firstIncompatible crateInfo,
                 issue_reason = (if truthy (reason crateInfo) then the (reason crateInfo)
                                 else ''Requires edition 2024''),
                 issue_usedBy = (case usedBy crateInfo of Some u \<Rightarrow> u | None \<Rightarrow> []),
                 issue_source = source pkg\<rparr>])
              packages
          else findProblematicDeps_loop num crates issues packages)"

definition findProblematicDeps ::
  "(int \<Rightarrow> 'n::linorder) \<Rightarrow> (string \<rightharpoonup> crate_info) \<Rightarrow> package list
   \<Rightarrow> js_error + issue list" where
  "findProblematicDeps num crates packages = findProblematicDeps_loop num crates [] packages"

section \<open>Remediation\<close>

definition generateCargoUpdateCommands :: "issue list \<Rightarrow> string list" where
  "generateCargoUpdateCommands issues =
     map (\<lambda>issue. ''cargo update -p '' @ issue_name issue @ '' --precise ''
                   @ issue_maxCompatible issue) issues"

definition generatePatchSection :: "issue list \<Rightarrow> string" where
  \<open>generatePatchSection issues =
     join [CHR 0x0A]
       (foldl (\<lambda>lines issue.
                 lines @ [issue_name issue @ '' = "='' @ issue_maxCompatible issue @ ''"''])
          [''[patch.crates-io]''] issues)\<close>

definition generateCargoConfig :: string where
  \<open>generateCargoConfig =
     concat (map (\<lambda>line. line @ [CHR 0x0A])
       [''# Cargo configuration for Solana/Anchor compatibility'',
        ''# Generated by solana-edition-fixer'',
        ''# https://github.com/volta-team/solana-edition-fixer'',
        [],
        ''[resolver]'',
        ''# MSRV-aware resolver - prefer versions compatible with rust-version'',
        ''# Requires Cargo 1.84+ to have effect'',
        ''incompatible-rust-versions = "fallback"'',
        [],
        ''[net]'',
        ''# Use git CLI for fetching (more reliable on some systems)'',
        ''git-fetch-with-cli = true'',
        [],
        ''[registries.crates-io]'',
        ''# Use sparse registry protocol (faster and more stable)'',
        ''protocol = "sparse"'',
        [],
        ''[build]'',
        ''# Recommended for Solana builds'',
        ''rustflags = ["-C", "target-cpu=sbfv2"]''])\<close>

section \<open>The manifest\<close>

definition starts_with :: "string \<Rightarrow> string \<Rightarrow> bool" where
  "starts_with key s \<longleftrightarrow> take (length key) s = key"

text \<open>\<open>regex.test(s)\<close> and \<open>s.includes(t)\<close>: the pattern matches at some position.\<close>

fun matches_somewhere :: "(string \<Rightarrow> bool) \<Rightarrow> string \<Rightarrow> bool" where
  "matches_somewhere m [] = m []"
| "matches_somewhere m (c # cs) = (m (c # cs) \<or> matches_somewhere m cs)"

text \<open>\<open>s.match(regex)\<close>: the group of the leftmost match.\<close>

fun first_match :: "(string \<Rightarrow> 'a option) \<Rightarrow> string \<Rightarrow> 'a option" where
  "first_match m [] = m []"
| "first_match m (c # cs) =
     (case m (c # cs) of Some v \<Rightarrow> Some v | None \<Rightarrow> first_match m cs)"

text \<open>The regular expression \<open>rust-version\s*=\<close> at the start of \<open>s\<close>.\<close>

definition match_rust_version_eq :: "string \<Rightarrow> bool" where
  "match_rust_version_eq s \<longleftrightarrow>
     starts_with ''rust-version'' s \<and>
     (case dropWhile is_space (drop (length ''rust-version'') s) of
        [] \<Rightarrow> False | c # r \<Rightarrow> c = CHR ''='')"

datatype cargo_toml_info =
    NotExists
  | Exists (hasRustVersion: bool) (rustVersion: "string option") (hasPatchSection: bool)
      (path: string)

definition checkCargoToml ::
  "'w node \<Rightarrow> 'w \<Rightarrow> string \<Rightarrow> (js_error + cargo_toml_info) \<times> call list" where
  "checkCargoToml nd w projectPath =
     (let cargoTomlPath = path_join nd [projectPath, ''Cargo.toml'']
      in if \<not> existsSync nd w cargoTomlPath then (Inr NotExists, [ExistsSync cargoTomlPath])
         else
           (case readFileSync nd w cargoTomlPath of
              Inl msg \<Rightarrow>
                (Inl (FsError msg), [ExistsSync cargoTomlPath, ReadFileSync cargoTomlPath])
            | Inr content \<Rightarrow>
                (Inr (Exists (matches_somewhere match_rust_version_eq content)
                        (first_match (match_quoted ''rust-version'') content)
                        (matches_somewhere (starts_with ''[patch.crates-io]'') content)
                        cargoTomlPath),
                 [ExistsSync cargoTomlPath, ReadFileSync cargoTomlPath])))"

section \<open>The fix executor\<close>

record options =
  quiet :: bool
  verbose :: bool

text \<open>An element of \<open>results.failed\<close> is the pair of \<open>name\<close> and \<open>error\<close>.\<close>

record fix_results =
  updated :: "string list"
  failed :: "(string \<times> string) list"
  skipped :: "string list"
  configCreated :: bool
  cargoTomlUpdated :: bool

text \<open>
  \<open>fs.writeFileSync(cargoConfigPath, generateCargoConfig()); results.configCreated = true\<close>
  inside the \<open>try\<close>: a raised error leaves the flag unset.
\<close>

definition write_config :: "'w node \<Rightarrow> 'w \<Rightarrow> string \<Rightarrow> bool \<times> 'w \<times> call list" where
  "write_config nd w cargoConfigPath =
     (case writeFileSync nd w cargoConfigPath generateCargoConfig of
        (Some msg, w') \<Rightarrow> (False, w', [WriteFileSync cargoConfigPath generateCargoConfig])
      | (None, w') \<Rightarrow> (True, w', [WriteFileSync cargoConfigPath generateCargoConfig]))"

text \<open>Step 1 of \<open>applyFixes\<close>: the value of \<open>configCreated\<close>, the new world and the calls.\<close>

definition create_config :: "'w node \<Rightarrow> 'w \<Rightarrow> string \<Rightarrow> bool \<times> 'w \<times> call list" where
  "create_config nd w projectPath =
     (let cargoConfigPath = path_join nd [projectPath, ''.cargo'', ''config.toml''];
          cargoDir = path_join nd [projectPath, ''.cargo'']
      in if \<not> existsSync nd w cargoConfigPath then
           (if \<not> existsSync nd w cargoDir then
              (case mkdirSync nd w cargoDir of
                 (Some msg, w1) \<Rightarrow>
                   (False, w1,
                    [ExistsSync cargoConfigPath, ExistsSync cargoDir, MkdirSync cargoDir])
               | (None, w1) \<Rightarrow>
                   (case write_config nd w1 cargoConfigPath of
                      (created, w2, calls) \<Rightarrow>
                        (created, w2,
                         [ExistsSync cargoConfigPath, ExistsSync cargoDir, MkdirSync cargoDir]
                         @ calls)))
            else
              (case write_config nd w cargoConfigPath of
                 (created, w2, calls) \<Rightarrow>
                   (created, w2, [ExistsSync cargoConfigPath, ExistsSync cargoDir] @ calls)))
         else (False, w, [ExistsSync cargoConfigPath]))"

text \<open>The classification of one \<open>spawnSync\<close> outcome, as the body of the loop records it.\<close>

definition record_outcome :: "fix_results \<Rightarrow> issue \<Rightarrow> string + spawn_result \<Rightarrow> fix_results" where
  "record_outcome results issue outcome =
     (case outcome of
        Inl message \<Rightarrow> results\<lparr>failed := failed results @ [(issue_name issue, message)]\<rparr>
      | Inr result \<Rightarrow>
          if status result = Some 0 then
            results\<lparr>updated := updated results @ [issue_name issue]\<rparr>
          else if truthy (stderr result)
                  \<and> matches_somewhere (starts_with ''not found'') (the (stderr result)) then
            results\<lparr>skipped := skipped results @ [issue_name issue]\<rparr>
          else
            results\<lparr>failed := failed results @
              [(issue_name issue,
                if truthy (stderr result) then the (stderr result) else ''Unknown error'')]\<rparr>)"

text \<open>Step 2: one \<open>spawnSync\<close> for each issue, in list order.\<close>

fun applyFixes_loop ::
  "'w node \<Rightarrow> string \<Rightarrow> options \<Rightarrow> fix_results \<Rightarrow> 'w \<Rightarrow> issue list
   \<Rightarrow> fix_results \<times> 'w \<times> call list" where
  "applyFixes_loop nd projectPath opts results w [] = (results, w, [])"
| "applyFixes_loop nd projectPath opts results w (issue # issues) =
     (let args = [''update'', ''-p'', issue_name issue, ''--precise'', issue_maxCompatible issue]
      in case spawnSync nd w ''cargo'' args projectPath (verbose opts) of
           (outcome, w1) \<Rightarrow>
             (case applyFixes_loop nd projectPath opts (record_outcome results issue outcome)
                     w1 issues of
                (results', w2, calls) \<Rightarrow>
                  (results', w2, SpawnSync ''cargo'' args projectPath (verbose opts) # calls)))"

definition applyFixes ::
  "'w node \<Rightarrow> 'w \<Rightarrow> string \<Rightarrow> issue list \<Rightarrow> options \<Rightarrow> fix_results \<times> 'w \<times> call list" where
  "applyFixes nd w projectPath issues opts =
     (case create_config nd w projectPath of
        (created, w1, calls1) \<Rightarrow>
          (case applyFixes_loop nd projectPath opts
                  \<lparr>updated = [], failed = [], skipped = [], configCreated = created,
                   cargoTomlUpdated = False\<rparr> w1 issues of
             (results, w2, calls2) \<Rightarrow> (results, w2, calls1 @ calls2)))"

section \<open>The analysis entry point\<close>

text \<open>
  The object \<open>analyze\<close> returns; a property the object does not have is \<open>None\<close>. The
  parameter \<open>options\<close> of \<open>analyze\<close> is never read and is left out.
\<close>

record analysis_result =
  success :: bool
  error :: "string option"
  result_projectPath :: "string option"
  totalPackages :: "nat option"
  result_issues :: "issue list option"
  cargoTomlInfo :: "cargo_toml_info option"
  commands :: "string list option"
  patchSection :: "string option"

definition analyze ::
  "'w node \<Rightarrow> (int \<Rightarrow> 'n::linorder) \<Rightarrow> (string \<rightharpoonup> crate_info) \<Rightarrow> 'w \<Rightarrow> string
   \<Rightarrow> (js_error + analysis_result) \<times> call list" where
  "analyze nd num crates w projectPath =
     (let cargoLockPath = path_join nd [projectPath, ''Cargo.lock''];
          cargoTomlPath = path_join nd [projectPath, ''Cargo.toml'']
      in if \<not> existsSync nd w cargoTomlPath then
           (Inr \<lparr>success = False,
                 error = Some (''No Cargo.toml found in '' @ path_resolve nd projectPath),
                 result_projectPath = None, totalPackages = None, result_issues = None,
                 cargoTomlInfo = None, commands = None, patchSection = None\<rparr>,
            [ExistsSync cargoTomlPath])
         else
           (case checkCargoToml nd w projectPath of
              (Inl e, calls1) \<Rightarrow> (Inl e, ExistsSync cargoTomlPath # calls1)
            | (Inr info, calls1) \<Rightarrow>
                (case parseCargoLock nd w cargoLockPath of
                   (Inl e, calls2) \<Rightarrow> (Inl e, ExistsSync cargoTomlPath # calls1 @ calls2)
                 | (Inr None, calls2) \<Rightarrow>
                     (Inr \<lparr>success = False,
                           error = Some ''No Cargo.lock found. Run `cargo generate-lockfile` first.'',
                           result_projectPath = None, totalPackages = None,
                           result_issues = None, cargoTomlInfo = Some info, commands = None,
                           patchSection = None\<rparr>,
                      ExistsSync cargoTomlPath # calls1 @ calls2)
                 | (Inr (Some packages), calls2) \<Rightarrow>
                     (case findProblematicDeps num crates packages of
                        Inl e \<Rightarrow> (Inl e, ExistsSync cargoTomlPath # calls1 @ calls2)
                      | Inr issues \<Rightarrow>
                          (Inr \<lparr>success = True, error = None,
                                result_projectPath = Some (path_resolve nd projectPath),
                                totalPackages = Some (length packages),
                                result_issues = Some issues, cargoTomlInfo = Some info,
                                commands = Some (generateCargoUpdateCommands issues),
                                patchSection = Some (generatePatchSection issues)\<rparr>,
                           ExistsSync cargoTomlPath # calls1 @ calls2)))))"

section \<open>The specification's wording\<close>

subsection \<open>Version ordering\<close>

text \<open>The version without its pre-release or build suffix: what precedes the first \<open>-\<close> or \<open>+\<close>.\<close>

definition strip_suffix :: "string \<Rightarrow> string" where
  "strip_suffix v = takeWhile (\<lambda>c. c \<noteq> CHR ''-'' \<and> c \<noteq> CHR ''+'') v"

text \<open>A numeric component is a non-empty run of decimal digits.\<close>

definition numeric :: "string \<Rightarrow> bool" where
  "numeric s \<longleftrightarrow> s \<noteq> [] \<and> takeWhile is_digit s = s"

text \<open>The value of a component as the specification words it: zero unless it is numeric.\<close>

definition component_as_specified :: "(int \<Rightarrow> 'n) \<Rightarrow> string \<Rightarrow> 'n" where
  "component_as_specified num s = (if numeric s then num (int (digits_value s)) else num 0)"

text \<open>
  The value of a component as amended: the digits it starts with, after any white space and
  whatever follows them; zero when it starts with no digit.
\<close>

definition leading_digits :: "string \<Rightarrow> string" where
  "leading_digits s = takeWhile is_digit (dropWhile is_space s)"

definition component_value :: "(int \<Rightarrow> 'n) \<Rightarrow> string \<Rightarrow> 'n" where
  "component_value num s =
     (if leading_digits s = [] then num 0 else num (int (digits_value (leading_digits s))))"

text \<open>
  Component-wise comparison from the left, a missing trailing component counting as
  \<open>zero\<close>; the first difference decides.
\<close>

fun compare_components :: "'n::linorder \<Rightarrow> 'n list \<Rightarrow> 'n list \<Rightarrow> int" where
  "compare_components zero [] [] = 0"
| "compare_components zero (x # xs) [] =
     (if x > zero then 1 else if x < zero then - 1 else compare_components zero xs [])"
| "compare_components zero [] (y # ys) =
     (if zero > y then 1 else if zero < y then - 1 else compare_components zero [] ys)"
| "compare_components zero (x # xs) (y # ys) =
     (if x > y then 1 else if x < y then - 1 else compare_components zero xs ys)"

definition version_order ::
  "((int \<Rightarrow> 'n::linorder) \<Rightarrow> string \<Rightarrow> 'n) \<Rightarrow> (int \<Rightarrow> 'n) \<Rightarrow> string \<Rightarrow> string \<Rightarrow> int" where
  "version_order component num a b =
     compare_components (num 0)
       (map (component num) (split CHR ''.'' (strip_suffix a)))
       (map (component num) (split CHR ''.'' (strip_suffix b)))"

subsection \<open>Blocks of a lockfile\<close>

text \<open>
  The lines of a text end with a line feed or with a carriage return and a line feed: they
  are the pieces between line feeds, each without the carriage return that may end it.
\<close>

definition chomp :: "string \<Rightarrow> string" where
  "chomp l = (if l \<noteq> [] \<and> last l = CHR 0x0D then butlast l else l)"

definition text_lines :: "string \<Rightarrow> string list" where
  "text_lines content = map chomp (split CHR 0x0A content)"

text \<open>
  Each line that is the delimiter opens a block: the lines after it up to the next
  delimiter or the end of the text.
\<close>

fun blocks :: "string list \<Rightarrow> string list list" where
  "blocks [] = []"
| "blocks (l # ls) =
     (if l = ''[[package]]'' then takeWhile (\<lambda>x. x \<noteq> ''[[package]]'') ls # blocks ls
      else blocks ls)"

text \<open>A block's field: the value of the last line of the block that matches the field's pattern.\<close>

definition last_field :: "string \<Rightarrow> string list \<Rightarrow> string option" where
  "last_field key block =
     (case List.map_filter (match_quoted key) block of
        [] \<Rightarrow> None
      | v # vs \<Rightarrow> Some (last (v # vs)))"

definition block_record :: "string list \<Rightarrow> package option" where
  "block_record block =
     (case last_field ''name'' block of
        None \<Rightarrow> None
      | Some n \<Rightarrow>
          (case last_field ''version'' block of
             None \<Rightarrow> None
           | Some v \<Rightarrow> Some \<lparr>name = n, version = v, source = last_field ''source'' block\<rparr>))"

definition records_of_blocks :: "string \<Rightarrow> package list" where
  "records_of_blocks content = List.map_filter block_record (blocks (text_lines content))"

subsection \<open>Issues\<close>

text \<open>A package exceeds the table when its name is a key and its version compares greater.\<close>

definition exceeds :: "(int \<Rightarrow> 'n::linorder) \<Rightarrow> (string \<rightharpoonup> crate_info) \<Rightarrow> package \<Rightarrow> bool" where
  "exceeds num crates pkg \<longleftrightarrow>
     (case crates (name pkg) of
        None \<Rightarrow> False
      | Some crateInfo \<Rightarrow> compareVersions num (version pkg) (maxCompatible crateInfo) > 0)"

definition issue_of :: "(string \<rightharpoonup> crate_info) \<Rightarrow> package \<Rightarrow> issue" where
  "issue_of crates pkg =
     (let crateInfo = the (crates (name pkg))
      in \<lparr>issue_name = name pkg,
          currentVersion = version pkg,
          issue_maxCompatible = maxCompatible crateInfo,
          issue_firstIncompatible = firstIncompatible crateInfo,
          issue_reason = (case reason crateInfo of
                            None \<Rightarrow> ''Requires edition 2024''
                          | Some r \<Rightarrow> if r = [] then ''Requires edition 2024'' else r),
          issue_usedBy = (case usedBy crateInfo of None \<Rightarrow> [] | Some u \<Rightarrow> u),
          issue_source = source pkg\<rparr>)"

text \<open>A package whose name is no key of the table but names an inherited member.\<close>

definition shadowed :: "(string \<rightharpoonup> crate_info) \<Rightarrow> package \<Rightarrow> bool" where
  "shadowed crates pkg \<longleftrightarrow> crates (name pkg) = None \<and> name pkg \<in> set object_prototype_keys"

subsection \<open>Remediation text\<close>

definition update_command :: "issue \<Rightarrow> string" where
  "update_command issue =
     ''update -p '' @ issue_name issue @ '' --precise '' @ issue_maxCompatible issue"

definition patch_line :: "issue \<Rightarrow> string" where
  \<open>patch_line issue = issue_name issue @ '' = "='' @ issue_maxCompatible issue @ ''"''\<close>

subsection \<open>Subprocess calls\<close>

definition is_spawn :: "call \<Rightarrow> bool" where
  "is_spawn c \<longleftrightarrow> (case c of SpawnSync cmd args cwd inherit \<Rightarrow> True | _ \<Rightarrow> False)"

text \<open>The one invocation of the package manager that an issue calls for.\<close>

definition update_call :: "string \<Rightarrow> options \<Rightarrow> issue \<Rightarrow> call" where
  "update_call projectPath opts issue =
     SpawnSync ''cargo''
       [''update'', ''-p'', issue_name issue, ''--precise'', issue_maxCompatible issue]
       projectPath (verbose opts)"

text \<open>
  What the package manager answers to each issue in turn, each call made in the world that
  the calls before it have left.
\<close>

fun spawn_outcomes ::
  "'w node \<Rightarrow> string \<Rightarrow> options \<Rightarrow> 'w \<Rightarrow> issue list \<Rightarrow> (string + spawn_result) list" where
  "spawn_outcomes nd projectPath opts w [] = []"
| "spawn_outcomes nd projectPath opts w (issue # issues) =
     (case spawnSync nd w ''cargo''
             [''update'', ''-p'', issue_name issue, ''--precise'', issue_maxCompatible issue]
             projectPath (verbose opts) of
        (outcome, w1) \<Rightarrow> outcome # spawn_outcomes nd projectPath opts w1 issues)"

text \<open>
  The outcome of one invocation: exit code zero is an update; another exit whose error text
  contains \<open>not found\<close> is a skip; anything else, a raised error too, is a failure that keeps
  the error text.
\<close>

datatype verdict = Updated | Skipped | Failed string

definition classify :: "string + spawn_result \<Rightarrow> verdict" where
  "classify outcome =
     (case outcome of
        Inl message \<Rightarrow> Failed message
      | Inr result \<Rightarrow>
          if status result = Some 0 then Updated
          else
            (case stderr result of
               None \<Rightarrow> Failed ''Unknown error''
             | Some text \<Rightarrow>
                 if text = [] then Failed ''Unknown error''
                 else if matches_somewhere (starts_with ''not found'') text then Skipped
                 else Failed text))"

definition failure_of :: "issue \<times> (string + spawn_result) \<Rightarrow> (string \<times> string) option" where
  "failure_of p =
     (case classify (snd p) of Failed text \<Rightarrow> Some (issue_name (fst p), text) | _ \<Rightarrow> None)"

section \<open>A small world for running the model\<close>

text \<open>
  Files are a map from path to content, paths are joined with a slash, every write
  succeeds, and \<open>cargo\<close> exits with the status and error text that the world holds for the
  package it is asked to update.
\<close>

record world =
  files :: "string \<rightharpoonup> string"
  cargo :: "string \<Rightarrow> (string + spawn_result)"

definition small_node :: "world node" where
  "small_node =
     \<lparr>path_join = join ''/'',
      path_resolve = (\<lambda>p. ''/home/dev/'' @ p),
      existsSync = (\<lambda>w p. files w p \<noteq> None),
      readFileSync = (\<lambda>w p. case files w p of None \<Rightarrow> Inl ''ENOENT'' | Some c \<Rightarrow> Inr c),
      mkdirSync = (\<lambda>w p. (None, w)),
      writeFileSync = (\<lambda>w p c. (None, w\<lparr>files := (files w)(p \<mapsto> c)\<rparr>)),
      spawnSync = (\<lambda>w cmd args cwd inherit. (cargo w (args ! 2), w))\<rparr>"

text \<open>A lockfile of three blocks, the second without a version, and a manifest.\<close>

definition sample_lock :: string where
  \<open>sample_lock =
     join [CHR 0x0A]
       [''version = 3'', [],
        ''[[package]]'', ''name = "blake3"'', ''version = "1.8.3"'', ''source = "registry"'', [],
        ''[[package]]'', ''name = "broken"'', [],
        ''[[package]]'', ''name = "subtle"'', ''version = "2.5.0"'', []]\<close>

definition sample_manifest :: string where
  \<open>sample_manifest =
     join [CHR 0x0A] [''[package]'', ''name = "demo"'', ''rust-version = "1.75"'', []]\<close>

definition sample_world :: world where
  "sample_world =
     \<lparr>files = [''proj/Cargo.toml'' \<mapsto> sample_manifest, ''proj/Cargo.lock'' \<mapsto> sample_lock],
      cargo = (\<lambda>p. if p = ''blake3'' then Inr \<lparr>status = Some 0, stderr = Some []\<rparr>
                    else if p = ''zeroize'' then
                      Inr \<lparr>status = Some 101, stderr = Some ''error: package not found''\<rparr>
                    else if p = ''subtle'' then Inr \<lparr>status = None, stderr = None\<rparr>
                    else Inl ''spawnSync cargo EPERM'')\<rparr>"

definition sample_crates :: "string \<rightharpoonup> crate_info" where
  "sample_crates =
     [''blake3'' \<mapsto>
        \<lparr>maxCompatible = ''1.5.0'', firstIncompatible = Some ''1.6.0'', reason = None,
         usedBy = None, priority = Some ''critical''\<rparr>,
      ''subtle'' \<mapsto>
        \<lparr>maxCompatible = ''2.5.0'', firstIncompatible = Some ''2.6.0'',
         reason = Some ''2.6.0+ requires edition 2024'', usedBy = Some [''curve25519-dalek''],
         priority = Some ''high''\<rparr>]"

definition sample_issue :: "string \<Rightarrow> string \<Rightarrow> string \<Rightarrow> issue" where
  "sample_issue n current compatible =
     \<lparr>issue_name = n, currentVersion = current, issue_maxCompatible = compatible,
      issue_firstIncompatible = None, issue_reason = ''Requires edition 2024'',
      issue_usedBy = [], issue_source = None\<rparr>"

text \<open>The same services on a file system that refuses every write.\<close>

definition readonly_node :: "world node" where
  "readonly_node =
     small_node\<lparr>mkdirSync := (\<lambda>w p. (Some ''EACCES'', w)),
                writeFileSync := (\<lambda>w p c. (Some ''EACCES'', w))\<rparr>"

text \<open>A lockfile of one block whose lines end with a carriage return and a line feed.\<close>

definition sample_crlf_lock :: string where
  \<open>sample_crlf_lock =
     concat (map (\<lambda>l. l @ [CHR 0x0D, CHR 0x0A])
       [''[[package]]'', ''name = "blake3"'', ''version = "1.8.3"''])\<close>

section \<open>Properties\<close>

subsection \<open>Version comparison\<close>

lemma split_not_Nil: "split c s \<noteq> []"
  by (induction s) (auto split: list.splits)

lemma hd_split: "hd (split c s) = takeWhile (\<lambda>x. x \<noteq> c) s"
  by (induction s) (auto split: list.splits simp: split_not_Nil)

lemma takeWhile_twice: "takeWhile P (takeWhile Q xs) = takeWhile (\<lambda>x. Q x \<and> P x) xs"
  by (induction xs) auto

lemma clean_strip_suffix:
  "hd (split CHR ''+'' (hd (split CHR ''-'' v))) = strip_suffix v"
  by (simp add: hd_split takeWhile_twice strip_suffix_def)

lemma strip_suffix_idem: "strip_suffix (strip_suffix v) = strip_suffix v"
  by (simp add: strip_suffix_def takeWhile_twice)

lemma set_split: "x \<in> set (split c s) \<Longrightarrow> set x \<subseteq> set s"
proof (induction s arbitrary: x)
  case Nil
  then show ?case by simp
next
  case (Cons a s)
  show ?case
  proof (cases "a = c")
    case True
    with Cons show ?thesis by auto
  next
    case False
    obtain y ys where sp: "split c s = y # ys"
      using split_not_Nil [of c s] by (cases "split c s") auto
    with False Cons.prems have "x = a # y \<or> x \<in> set ys" by simp
    then show ?thesis
    proof
      assume "x = a # y"
      moreover have "set y \<subseteq> set s" using Cons.IH [of y] sp by simp
      ultimately show ?thesis by auto
    next
      assume "x \<in> set ys"
      then have "set x \<subseteq> set s" using Cons.IH [of x] sp by simp
      then show ?thesis by auto
    qed
  qed
qed

lemma set_strip_suffix: "c \<in> set (strip_suffix v) \<Longrightarrow> c \<noteq> CHR ''-'' \<and> c \<noteq> CHR ''+''"
  unfolding strip_suffix_def by (auto dest: set_takeWhileD)

lemma dropWhile_space_hd:
  "dropWhile is_space s \<noteq> [] \<Longrightarrow> hd (dropWhile is_space s) \<in> set s"
  by (metis hd_in_set set_dropWhileD)

lemma parseInt_unsigned:
  assumes "CHR ''-'' \<notin> set s" and "CHR ''+'' \<notin> set s"
  shows "parseInt s =
           (if leading_digits s = [] then None
            else Some (int (digits_value (leading_digits s))))"
proof -
  have "dropWhile is_space s \<noteq> [] \<Longrightarrow>
          hd (dropWhile is_space s) \<noteq> CHR ''-'' \<and> hd (dropWhile is_space s) \<noteq> CHR ''+''"
    using assms dropWhile_space_hd [of s] by metis
  then show ?thesis
    by (auto simp: parseInt_def leading_digits_def Let_def)
qed

lemma parseInt_or_0_component:
  assumes "CHR ''-'' \<notin> set s" and "CHR ''+'' \<notin> set s"
  shows "parseInt_or_0 num s = component_value num s"
  by (simp add: parseInt_or_0_def component_value_def parseInt_unsigned [OF assms])

lemma parts_components:
  "map (parseInt_or_0 num) (split CHR ''.'' (strip_suffix v))
     = map (component_value num) (split CHR ''.'' (strip_suffix v))"
proof (rule map_cong [OF refl])
  fix s
  assume "s \<in> set (split CHR ''.'' (strip_suffix v))"
  then have "set s \<subseteq> set (strip_suffix v)" by (rule set_split)
  then have "CHR ''-'' \<notin> set s" and "CHR ''+'' \<notin> set s"
    using set_strip_suffix [of _ v] by blast+
  then show "parseInt_or_0 num s = component_value num s" by (rule parseInt_or_0_component)
qed

lemma loop_compare_components:
  "compareVersions_loop num parts1 parts2 i
     = compare_components (num 0) (drop i parts1) (drop i parts2)"
proof (induction num parts1 parts2 i rule: compareVersions_loop.induct)
  case (1 num parts1 parts2 i)
  show ?case
  proof (cases "i < length parts1"; cases "i < length parts2")
    assume a: "i < length parts1" "i < length parts2"
    then have d: "drop i parts1 = parts1 ! i # drop (Suc i) parts1"
                 "drop i parts2 = parts2 ! i # drop (Suc i) parts2"
      by (simp_all add: Cons_nth_drop_Suc)
    show ?thesis
      using a "1.IH" [OF _ refl refl]
      by (subst compareVersions_loop.simps) (auto simp: d part_or_0_def Let_def)
  next
    assume a: "i < length parts1" "\<not> i < length parts2"
    then have d: "drop i parts1 = parts1 ! i # drop (Suc i) parts1" "drop i parts2 = []"
                 "drop (Suc i) parts2 = []"
      by (simp_all add: Cons_nth_drop_Suc)
    show ?thesis
      using a "1.IH" [OF _ refl refl]
      by (subst compareVersions_loop.simps) (auto simp: d part_or_0_def Let_def)
  next
    assume a: "\<not> i < length parts1" "i < length parts2"
    then have d: "drop i parts2 = parts2 ! i # drop (Suc i) parts2" "drop i parts1 = []"
                 "drop (Suc i) parts1 = []"
      by (simp_all add: Cons_nth_drop_Suc)
    show ?thesis
      using a "1.IH" [OF _ refl refl]
      by (subst compareVersions_loop.simps) (auto simp: d part_or_0_def Let_def)
  next
    assume a: "\<not> i < length parts1" "\<not> i < length parts2"
    then have "\<not> i < max (length parts1) (length parts2)" by simp
    with a show ?thesis
      by (subst compareVersions_loop.simps) simp
  qed
qed

lemma compareVersions_version_order:
  "compareVersions num a b = version_order component_value num a b"
  by (simp add: compareVersions_def version_order_def clean_strip_suffix Let_def
        parts_components loop_compare_components)

lemma compare_components_antisym:
  "(compare_components z xs ys > 0) = (compare_components z ys xs < 0)"
  by (induction z xs ys rule: compare_components.induct) auto

lemma compare_components_refl: "compare_components z xs xs = 0"
  by (induction xs) auto

lemma compare_components_range: "compare_components z xs ys \<in> {- 1, 0, 1}"
  by (induction z xs ys rule: compare_components.induct) auto


lemmas version_eval =
  version_order_def strip_suffix_def component_value_def leading_digits_def is_space_def
  is_digit_def digits_value_def digit_value_def numeric_def component_as_specified_def

text \<open>
  C2: \<open>compareVersions(a, b) > 0\<close> exactly when \<open>compareVersions(b, a) < 0\<close>; a version compares
  equal to itself; the result only depends on the versions without their suffixes; and
  \<open>1.2.0-beta\<close> compares equal to \<open>1.2.0\<close>.
\<close>

theorem compareVersions_antisymmetric:
  "(compareVersions num a b > 0) = (compareVersions num b a < 0)
   \<and> compareVersions num a a = 0
   \<and> compareVersions num a b = compareVersions num (strip_suffix a) (strip_suffix b)
   \<and> compareVersions num ''1.2.0-beta'' ''1.2.0'' = 0"
proof -
  have anti: "(compareVersions num a b > 0) = (compareVersions num b a < 0)"
    by (simp add: compareVersions_version_order version_order_def compare_components_antisym)
  have rfl: "compareVersions num v v = 0" for v
    by (simp add: compareVersions_version_order version_order_def compare_components_refl)
  have strip: "compareVersions num u v = compareVersions num (strip_suffix u) (strip_suffix v)"
    for u v
    by (simp add: compareVersions_version_order version_order_def strip_suffix_idem)
  have "strip_suffix ''1.2.0-beta'' = ''1.2.0''" and "strip_suffix ''1.2.0'' = ''1.2.0''"
    by (simp_all add: strip_suffix_def)
  then have "compareVersions num ''1.2.0-beta'' ''1.2.0'' = compareVersions num ''1.2.0'' ''1.2.0''"
    using strip [of "''1.2.0-beta''" "''1.2.0''"] by simp
  with anti rfl strip show ?thesis by simp
qed

theorem compareVersions_antisymmetric_witness:
  "compareVersions id ''1.8.3'' ''1.5.0'' = 1 \<and> compareVersions id ''1.5.0'' ''1.8.3'' = - 1
   \<and> compareVersions id ''1.2.0-beta'' ''1.2.0'' = 0"
proof -
  have "compareVersions id ''1.8.3'' ''1.5.0'' = (1::int)"
    by (simp add: compareVersions_version_order version_eval)
  moreover have "compareVersions id ''1.5.0'' ''1.8.3'' = - 1"
    by (simp add: compareVersions_version_order version_eval)
  ultimately show ?thesis
    using compareVersions_antisymmetric [of id "''1.8.3''" "''1.5.0''"] by simp
qed

lemma Finite_less [simp]: "(Finite a < Finite b) = (a < b)"
  by (auto simp: less_number_def less_eq_number_def)

lemma Finite_le [simp]: "(Finite a \<le> Finite b) = (a \<le> b)"
  by (simp add: less_eq_number_def)

lemma toNumber_exact: "\<bar>z\<bar> < 2 ^ 53 \<Longrightarrow> toNumber z = Finite z"
proof -
  assume small: "\<bar>z\<bar> < 2 ^ 53"
  then have n: "nat \<bar>z\<bar> < 2 ^ 53"
    by (simp add: nat_less_iff)
  then have r: "round_to_double (nat \<bar>z\<bar>) = nat \<bar>z\<bar>"
    by (simp add: round_to_double_def)
  have "(2::nat) ^ 53 < 2 ^ 1024" by simp
  with n have "\<not> 2 ^ 1024 \<le> nat \<bar>z\<bar>" by linarith
  with r show ?thesis by (simp add: toNumber_def Let_def)
qed

lemma bit_length_unique: "2 ^ k \<le> n \<Longrightarrow> n < 2 ^ Suc k \<Longrightarrow> bit_length n = Suc k"
proof (induction k arbitrary: n)
  case 0
  then have "n = 1" by simp
  then show ?case by (simp add: bit_length.simps [of "Suc 0"] bit_length.simps [of 0])
next
  case (Suc k)
  then have "2 ^ k \<le> n div 2" and "n div 2 < 2 ^ Suc k" and "n \<noteq> 0"
    by auto
  then have "bit_length (n div 2) = Suc k" using Suc.IH by blast
  with \<open>n \<noteq> 0\<close> show ?case by (simp add: bit_length.simps [of n])
qed

text \<open>Between the doubles \<open>2^53\<close> and \<open>2^53 + 2\<close> the integer \<open>2^53 + 1\<close> is no double.\<close>

lemma toNumber_tie: "toNumber 9007199254740993 = Finite 9007199254740992"
proof -
  have "bit_length 9007199254740993 = Suc 53"
    by (rule bit_length_unique) simp_all
  then have "round_to_double 9007199254740993 = 9007199254740992"
    by (simp add: round_to_double_def Let_def)
  then show ?thesis by (simp add: toNumber_def Let_def)
qed

lemma toNumber_even: "toNumber 9007199254740992 = Finite 9007199254740992"
proof -
  have "bit_length 9007199254740992 = Suc 53"
    by (rule bit_length_unique) simp_all
  then have "round_to_double 9007199254740992 = 9007199254740992"
    by (simp add: round_to_double_def Let_def)
  then show ?thesis by (simp add: toNumber_def Let_def)
qed

lemma component_value_toNumber:
  "component_value toNumber s = toNumber (component_value id s)"
  by (simp add: component_value_def)

lemma component_value_id: "component_value id s = int (digits_value (leading_digits s))"
  by (simp add: component_value_def digits_value_def)

text \<open>Below \<open>2^53\<close> the Numbers compare as the integers do.\<close>

lemma compare_components_exact:
  assumes "\<bar>z\<bar> < 2 ^ 53" and "\<forall>x \<in> set xs. \<bar>x\<bar> < 2 ^ 53" and "\<forall>y \<in> set ys. \<bar>y\<bar> < 2 ^ 53"
  shows "compare_components (toNumber z) (map toNumber xs) (map toNumber ys)
           = compare_components z xs ys"
  using assms
  by (induction z xs ys rule: compare_components.induct) (simp_all add: toNumber_exact)

lemma bit_length_bounds: "n \<noteq> 0 \<Longrightarrow> 2 ^ (bit_length n - 1) \<le> n \<and> n < 2 ^ bit_length n"
proof (induction n rule: bit_length.induct)
  case (1 n)
  show ?case
  proof (cases "n div 2 = 0")
    case True
    with "1.prems" have "n = 1" by (cases n) auto
    then show ?thesis
      by (simp add: bit_length.simps [of "Suc 0"] bit_length.simps [of 0])
  next
    case False
    with "1.IH" "1.prems"
    have ih: "2 ^ (bit_length (n div 2) - 1) \<le> n div 2" "n div 2 < 2 ^ bit_length (n div 2)"
      by auto
    have pos: "bit_length (n div 2) \<noteq> 0"
      using False by (simp add: bit_length.simps [of "n div 2"])
    have len: "bit_length n = Suc (bit_length (n div 2))"
      using "1.prems" by (simp add: bit_length.simps [of n])
    have "2 * 2 ^ (bit_length (n div 2) - 1) \<le> n" using ih(1) by linarith
    moreover have "2 * 2 ^ (bit_length (n div 2) - 1) = (2::nat) ^ bit_length (n div 2)"
      using pos by (cases "bit_length (n div 2)") auto
    moreover have "n < 2 * 2 ^ bit_length (n div 2)" using ih(2) by linarith
    ultimately show ?thesis by (simp add: len)
  qed
qed

lemma exponent_above_53: "(2::nat) ^ 53 < 2 ^ k \<Longrightarrow> 53 < k"
proof (rule ccontr)
  assume lt: "(2::nat) ^ 53 < 2 ^ k" and "\<not> 53 < k"
  then have "k \<le> 53" by simp
  then have "(2::nat) ^ k \<le> 2 ^ 53" by (intro power_increasing) auto
  with lt show False by linarith
qed

lemma bit_length_mono: "n \<le> m \<Longrightarrow> bit_length n \<le> bit_length m"
proof (rule ccontr)
  assume le: "n \<le> m" and "\<not> bit_length n \<le> bit_length m"
  then have gt: "bit_length m < bit_length n" by simp
  have n0: "n \<noteq> 0"
  proof
    assume "n = 0"
    then have "bit_length n = 0" by (simp add: bit_length.simps [of 0])
    with gt show False by simp
  qed
  show False
  proof (cases "m = 0")
    case True
    with le n0 show False by simp
  next
    case False
    then have "m < 2 ^ bit_length m" using bit_length_bounds by blast
    also have "(2::nat) ^ bit_length m \<le> 2 ^ (bit_length n - 1)"
      using gt by (intro power_increasing) auto
    also have "\<dots> \<le> n" using bit_length_bounds [OF n0] by blast
    finally show False using le by simp
  qed
qed

text \<open>A rounded number lies between the powers of two around the number.\<close>

lemma round_to_double_bounds:
  assumes "2 ^ 53 \<le> n"
  shows "2 ^ (bit_length n - 1) \<le> round_to_double n \<and> round_to_double n \<le> 2 ^ bit_length n"
proof -
  define e where "e = bit_length n - 53"
  define q where "q = n div 2 ^ e"
  have n0: "n \<noteq> 0" using assms by auto
  have b: "2 ^ (bit_length n - 1) \<le> n" "n < 2 ^ bit_length n"
    using bit_length_bounds [OF n0] by auto
  have "(2::nat) ^ 53 < 2 ^ bit_length n" using assms b(2) by linarith
  then have k: "53 < bit_length n" by (rule exponent_above_53)
  then have ke: "bit_length n = 53 + e" "bit_length n - 1 = 52 + e" by (simp_all add: e_def)
  have qlow: "2 ^ 52 \<le> q"
  proof -
    have "(2::nat) ^ 52 * 2 ^ e \<le> n" using b(1) by (simp add: ke power_add)
    then show ?thesis unfolding q_def by (simp add: less_eq_div_iff_mult_less_eq)
  qed
  have qhigh: "q < 2 ^ 53"
  proof -
    have "n < (2::nat) ^ 53 * 2 ^ e" using b(2) by (simp add: ke power_add)
    then show ?thesis unfolding q_def by (simp add: less_mult_imp_div_less)
  qed
  have r: "round_to_double n = q * 2 ^ e \<or> round_to_double n = (q + 1) * 2 ^ e"
    using assms by (auto simp: round_to_double_def Let_def e_def q_def)
  have low: "(2::nat) ^ (bit_length n - 1) \<le> q * 2 ^ e"
    using qlow by (simp add: ke power_add)
  have high: "(q + 1) * 2 ^ e \<le> (2::nat) ^ bit_length n"
  proof -
    have "q + 1 \<le> 2 ^ 53" using qhigh by simp
    then have "(q + 1) * 2 ^ e \<le> 2 ^ 53 * 2 ^ e" by (rule mult_le_mono1)
    then show ?thesis by (simp add: ke power_add)
  qed
  have "q * 2 ^ e \<le> (q + 1) * 2 ^ e" by simp
  with r low high show ?thesis by (metis order_trans)
qed

lemma round_to_double_mono: "n \<le> m \<Longrightarrow> round_to_double n \<le> round_to_double m"
proof -
  assume le: "n \<le> m"
  consider "m < 2 ^ 53" | "n < 2 ^ 53" "2 ^ 53 \<le> m" | "2 ^ 53 \<le> n" by linarith
  then show ?thesis
  proof cases
    case 1
    with le show ?thesis by (simp add: round_to_double_def)
  next
    case 2
    have m0: "m \<noteq> 0" using 2(2) by auto
    have "(2::nat) ^ 53 < 2 ^ bit_length m"
      using 2(2) bit_length_bounds [OF m0] by linarith
    then have "53 < bit_length m" by (rule exponent_above_53)
    then have "(2::nat) ^ 53 \<le> 2 ^ (bit_length m - 1)"
      by (intro power_increasing) auto
    with 2(1) round_to_double_bounds [OF 2(2)] show ?thesis
      by (simp add: round_to_double_def [of n])
  next
    case 3
    then have m53: "2 ^ 53 \<le> m" using le by simp
    have kk: "bit_length n \<le> bit_length m" using le by (rule bit_length_mono)
    show ?thesis
    proof (cases "bit_length n = bit_length m")
      case False
      with kk have "bit_length n \<le> bit_length m - 1" by simp
      then have "(2::nat) ^ bit_length n \<le> 2 ^ (bit_length m - 1)"
        by (intro power_increasing) auto
      with round_to_double_bounds [OF 3] round_to_double_bounds [OF m53] show ?thesis
        by linarith
    next
      case True
      define e where "e = bit_length m - 53"
      define qn rn qm rm where "qn = n div 2 ^ e" and "rn = n mod 2 ^ e"
        and "qm = m div 2 ^ e" and "rm = m mod 2 ^ e"
      have Rn: "round_to_double n
                  = (if rn > 2 ^ (e - 1) \<or> (rn = 2 ^ (e - 1) \<and> odd qn) then (qn + 1) * 2 ^ e
                     else qn * 2 ^ e)"
        using 3 by (simp add: round_to_double_def Let_def e_def qn_def rn_def True)
      have Rm: "round_to_double m
                  = (if rm > 2 ^ (e - 1) \<or> (rm = 2 ^ (e - 1) \<and> odd qm) then (qm + 1) * 2 ^ e
                     else qm * 2 ^ e)"
        using m53 by (simp add: round_to_double_def Let_def e_def qm_def rm_def)
      have qq: "qn \<le> qm" unfolding qn_def qm_def using le by (rule div_le_mono)
      show ?thesis
      proof (cases "qn = qm")
        case False
        with qq have "qn + 1 \<le> qm" by simp
        then have "(qn + 1) * 2 ^ e \<le> qm * 2 ^ e" by (rule mult_le_mono1)
        moreover have "round_to_double n \<le> (qn + 1) * 2 ^ e" by (simp add: Rn)
        moreover have "qm * 2 ^ e \<le> round_to_double m" by (simp add: Rm)
        ultimately show ?thesis by linarith
      next
        case same: True
        have "n = qn * 2 ^ e + rn" "m = qm * 2 ^ e + rm"
          unfolding qn_def rn_def qm_def rm_def by (rule div_mult_mod_eq [symmetric])+
        with le same have "rn \<le> rm" by simp
        then show ?thesis by (auto simp: Rn Rm same)
      qed
    qed
  qed
qed

text \<open>The conversion keeps the order of the integers: it only merges neighbours.\<close>

lemma toNumber_mono: "z \<le> z' \<Longrightarrow> toNumber z \<le> toNumber z'"
proof -
  assume le: "z \<le> z'"
  consider "z < 0" "z' < 0" | "z < 0" "0 \<le> z'" | "0 \<le> z" by linarith
  then show ?thesis
  proof cases
    case 1
    with le have "nat \<bar>z'\<bar> \<le> nat \<bar>z\<bar>" by simp
    then have "round_to_double (nat \<bar>z'\<bar>) \<le> round_to_double (nat \<bar>z\<bar>)"
      by (rule round_to_double_mono)
    with 1 show ?thesis
      by (auto simp: toNumber_def Let_def less_eq_number_def)
  next
    case 2
    then show ?thesis
      by (auto simp: toNumber_def Let_def less_eq_number_def)
  next
    case 3
    with le have "nat \<bar>z\<bar> \<le> nat \<bar>z'\<bar>" by simp
    then have "round_to_double (nat \<bar>z\<bar>) \<le> round_to_double (nat \<bar>z'\<bar>)"
      by (rule round_to_double_mono)
    with 3 le show ?thesis
      by (auto simp: toNumber_def Let_def less_eq_number_def)
  qed
qed

text \<open>
  C3 as stated: every component that is not numeric counts as zero, and components compare
  numerically. The component \<open>5abc\<close> is not numeric and counts as 5, so \<open>1.5abc\<close> compares
  greater than \<open>1.0\<close> where the stated ordering makes them equal.
\<close>

theorem compareVersions_nonnumeric_counterexample:
  "compareVersions toNumber ''1.5abc'' ''1.0'' = 1
   \<and> version_order component_as_specified toNumber ''1.5abc'' ''1.0'' = 0
   \<and> compareVersions toNumber ''1.5abc'' ''1.0''
       \<noteq> version_order component_as_specified toNumber ''1.5abc'' ''1.0''"
  by (simp add: compareVersions_version_order version_eval toNumber_exact)

text \<open>
  C3 as amended: \<open>compareVersions\<close> drops what follows the first \<open>-\<close> or \<open>+\<close>, splits the rest
  at the dots and compares the components from the left as Numbers, a missing trailing
  component counting as zero. A component counts as the Number nearest to the integer
  written by the digits it starts with, after any leading white space, and as zero when it
  starts with no digit. When every component is below \<open>2^53\<close> the Numbers are these integers
  themselves and the comparison is the numeric one; beyond, a component with the greater
  integer never has the smaller Number. It returns \<open>-1\<close>, \<open>0\<close> or \<open>1\<close> for every pair of
  strings.
\<close>

theorem compareVersions_leading_digits:
  "compareVersions toNumber a b = version_order component_value toNumber a b
   \<and> compareVersions toNumber a b \<in> {- 1, 0, 1}
   \<and> ((\<forall>s \<in> set (split CHR ''.'' (strip_suffix a)) \<union> set (split CHR ''.'' (strip_suffix b)).
          digits_value (leading_digits s) < 2 ^ 53) \<longrightarrow>
        compareVersions toNumber a b = version_order component_value id a b)
   \<and> (digits_value (leading_digits s) \<le> digits_value (leading_digits t) \<longrightarrow>
        component_value toNumber s \<le> component_value toNumber t)"
proof -
  have eq: "compareVersions toNumber a b = version_order component_value toNumber a b"
    by (rule compareVersions_version_order)
  have range: "compareVersions toNumber a b \<in> {- 1, 0, 1}"
    using compare_components_range by (simp add: eq version_order_def)
  have exact: "compareVersions toNumber a b = version_order component_value id a b"
    if small: "\<forall>s \<in> set (split CHR ''.'' (strip_suffix a)) \<union> set (split CHR ''.'' (strip_suffix b)).
                 digits_value (leading_digits s) < 2 ^ 53"
  proof -
    let ?as = "map (component_value id) (split CHR ''.'' (strip_suffix a))"
    let ?bs = "map (component_value id) (split CHR ''.'' (strip_suffix b))"
    have bound: "\<bar>component_value id s\<bar> < 2 ^ 53"
      if "s \<in> set (split CHR ''.'' (strip_suffix a)) \<union> set (split CHR ''.'' (strip_suffix b))"
      for s
    proof -
      have "digits_value (leading_digits s) < 2 ^ 53" using small that by blast
      then have "int (digits_value (leading_digits s)) < 2 ^ 53"
        by (metis of_nat_less_iff of_nat_numeral of_nat_power)
      then show ?thesis by (simp add: component_value_id)
    qed
    have "compare_components (toNumber 0) (map toNumber ?as) (map toNumber ?bs)
            = compare_components 0 ?as ?bs"
      by (rule compare_components_exact) (use bound in auto)
    then show ?thesis
      by (simp add: eq version_order_def component_value_toNumber [abs_def] comp_def)
  qed
  have mono: "component_value toNumber s \<le> component_value toNumber t"
    if "digits_value (leading_digits s) \<le> digits_value (leading_digits t)"
    using that by (simp add: component_value_toNumber component_value_id toNumber_mono)
  from eq range exact mono show ?thesis by blast
qed

theorem compareVersions_leading_digits_witness:
  "digits_value (leading_digits ''1'') < 2 ^ 53
   \<and> digits_value (leading_digits ''10'') < 2 ^ 53
   \<and> digits_value (leading_digits ''9'') < 2 ^ 53
   \<and> digits_value (leading_digits ''0'') < 2 ^ 53
   \<and> compareVersions toNumber ''1.10.0'' ''1.9'' = 1
   \<and> version_order component_value id ''1.10.0'' ''1.9'' = 1
   \<and> compareVersions toNumber ''1.5abc'' ''1.0'' = 1
   \<and> compareVersions toNumber ''1.x'' ''1.0'' = 0
   \<and> compareVersions toNumber ''2'' ''1.99.9'' = 1
   \<and> compareVersions toNumber ''9007199254740993'' ''9007199254740992'' = 0
   \<and> digits_value (leading_digits ''9'') \<le> digits_value (leading_digits ''10'')
   \<and> component_value toNumber ''9'' \<le> component_value toNumber ''10''"
proof -
  have small: "\<forall>s \<in> set (split CHR ''.'' (strip_suffix ''1.10.0''))
                     \<union> set (split CHR ''.'' (strip_suffix ''1.9'')).
                 digits_value (leading_digits s) < 2 ^ 53"
    by (simp add: version_eval)
  have exact: "version_order component_value id ''1.10.0'' ''1.9'' = 1"
    by (simp add: version_eval)
  have order: "digits_value (leading_digits ''9'') \<le> digits_value (leading_digits ''10'')"
    by (simp add: version_eval)
  note this_case = compareVersions_leading_digits [of "''1.10.0''" "''1.9''" "''9''" "''10''"]
  from this_case small exact
  have 1: "compareVersions toNumber ''1.10.0'' ''1.9'' = 1" by simp
  from this_case order
  have 6: "component_value toNumber ''9'' \<le> component_value toNumber ''10''" by blast
  have 2: "compareVersions toNumber ''1.5abc'' ''1.0'' = 1"
    and 3: "compareVersions toNumber ''1.x'' ''1.0'' = 0"
    and 4: "compareVersions toNumber ''2'' ''1.99.9'' = 1"
    by (simp_all add: compareVersions_version_order version_eval toNumber_exact)
  have "digits_value ''9007199254740993'' = 9007199254740993"
    and "digits_value ''9007199254740992'' = 9007199254740992"
    by (simp_all add: digits_value_def digit_value_def)
  then have 5: "compareVersions toNumber ''9007199254740993'' ''9007199254740992'' = 0"
    using toNumber_tie toNumber_even
    by (simp add: compareVersions_version_order version_order_def strip_suffix_def
          component_value_def leading_digits_def is_space_def is_digit_def)
  have bounds: "digits_value (leading_digits ''1'') < 2 ^ 53"
    "digits_value (leading_digits ''10'') < 2 ^ 53"
    "digits_value (leading_digits ''9'') < 2 ^ 53"
    "digits_value (leading_digits ''0'') < 2 ^ 53"
    by (simp_all add: version_eval)
  from 1 2 3 4 5 6 exact order bounds show ?thesis by (intro conjI)
qed

lemma numeric_leading_digits: "numeric s \<Longrightarrow> leading_digits s = s"
  by (cases s) (auto simp: numeric_def leading_digits_def is_digit_def is_space_def split: if_splits)

lemma numeric_component_value:
  "numeric s \<Longrightarrow> component_value num s = component_as_specified num s"
  by (simp add: numeric_leading_digits component_value_def component_as_specified_def numeric_def)

subsection \<open>The lockfile parser\<close>

lemma match_quoted_nonempty: "match_quoted key s = Some v \<Longrightarrow> v \<noteq> []"
  by (auto simp: match_quoted_def split: if_splits list.splits)

lemma last_field_Nil: "last_field key [] = None"
  by (simp add: last_field_def map_filter_simps)

lemma last_field_Cons:
  "last_field key (l # b) =
     (case last_field key b of Some v \<Rightarrow> Some v | None \<Rightarrow> match_quoted key l)"
  by (cases "match_quoted key l"; cases "List.map_filter (match_quoted key) b")
     (simp_all add: last_field_def map_filter_simps)

lemma last_field_nonempty: "last_field key b = Some v \<Longrightarrow> v \<noteq> []"
proof (induction b)
  case Nil
  then show ?case by (simp add: last_field_Nil)
next
  case (Cons l b)
  then show ?case
    by (auto simp: last_field_Cons split: option.splits dest: match_quoted_nonempty)
qed

lemma read_fields_name:
  "draft_name (read_fields d l) =
     (case match_quoted ''name'' l of Some v \<Rightarrow> Some v | None \<Rightarrow> draft_name d)"
  by (simp add: read_fields_def Let_def split: option.splits)

lemma read_fields_version:
  "draft_version (read_fields d l) =
     (case match_quoted ''version'' l of Some v \<Rightarrow> Some v | None \<Rightarrow> draft_version d)"
  by (simp add: read_fields_def Let_def split: option.splits)

lemma read_fields_source:
  "draft_source (read_fields d l) =
     (case match_quoted ''source'' l of Some v \<Rightarrow> Some v | None \<Rightarrow> draft_source d)"
  by (simp add: read_fields_def Let_def split: option.splits)

lemma foldl_read_fields_name:
  "draft_name (foldl read_fields d b) =
     (case last_field ''name'' b of Some v \<Rightarrow> Some v | None \<Rightarrow> draft_name d)"
  by (induction b arbitrary: d)
     (simp_all add: last_field_Nil last_field_Cons read_fields_name split: option.splits)

lemma foldl_read_fields_version:
  "draft_version (foldl read_fields d b) =
     (case last_field ''version'' b of Some v \<Rightarrow> Some v | None \<Rightarrow> draft_version d)"
  by (induction b arbitrary: d)
     (simp_all add: last_field_Nil last_field_Cons read_fields_version split: option.splits)

lemma foldl_read_fields_source:
  "draft_source (foldl read_fields d b) =
     (case last_field ''source'' b of Some v \<Rightarrow> Some v | None \<Rightarrow> draft_source d)"
  by (induction b arbitrary: d)
     (simp_all add: last_field_Nil last_field_Cons read_fields_source split: option.splits)

lemma push_if_complete_append:
  "push_if_complete cur packages = packages @ push_if_complete cur []"
  by (simp add: push_if_complete_def split: option.splits)

text \<open>What a block read from the empty object contributes is the block's record, if any.\<close>

lemma push_block_record:
  "push_if_complete (Some (foldl read_fields empty_draft b)) [] =
     (case block_record b of None \<Rightarrow> [] | Some r \<Rightarrow> [r])"
proof -
  let ?d = "foldl read_fields empty_draft b"
  have n: "draft_name ?d = last_field ''name'' b"
    by (simp add: foldl_read_fields_name empty_draft_def split: option.splits)
  have v: "draft_version ?d = last_field ''version'' b"
    by (simp add: foldl_read_fields_version empty_draft_def split: option.splits)
  have s: "draft_source ?d = last_field ''source'' b"
    by (simp add: foldl_read_fields_source empty_draft_def split: option.splits)
  show ?thesis
    using last_field_nonempty [of "''name''" b] last_field_nonempty [of "''version''" b]
    by (simp add: push_if_complete_def n v s truthy_def block_record_def split: option.splits)
qed

text \<open>
  The loop followed by the final push, from any state: the packages so far, then what the
  block in progress contributes, then the records of the blocks still to come.
\<close>

lemma loop_blocks:
  "(case parseCargoLock_loop packages (Some d) ls of
      (packages', cur') \<Rightarrow> push_if_complete cur' packages') =
     packages
     @ push_if_complete (Some (foldl read_fields d (takeWhile (\<lambda>x. x \<noteq> ''[[package]]'') ls))) []
     @ List.map_filter block_record (blocks ls)"
proof (induction ls arbitrary: packages d)
  case Nil
  show ?case
    by (simp add: map_filter_simps push_if_complete_append [of _ packages])
next
  case (Cons l ls)
  show ?case
  proof (cases "l = ''[[package]]''")
    case True
    have "push_if_complete (Some d) packages = packages @ push_if_complete (Some d) []"
      by (rule push_if_complete_append)
    with True show ?thesis
      by (simp add: Cons.IH push_block_record map_filter_simps split: option.splits)
  next
    case False
    then show ?thesis
      by (simp add: Cons.IH)
  qed
qed

lemma loop_blocks_outside:
  "(case parseCargoLock_loop packages None ls of
      (packages', cur') \<Rightarrow> push_if_complete cur' packages') =
     packages @ List.map_filter block_record (blocks ls)"
proof (induction ls arbitrary: packages)
  case Nil
  show ?case by (simp add: map_filter_simps push_if_complete_def)
next
  case (Cons l ls)
  show ?case
  proof (cases "l = ''[[package]]''")
    case True
    then have "parseCargoLock_loop packages None (l # ls)
                 = parseCargoLock_loop packages (Some empty_draft) ls"
      by (simp add: push_if_complete_def)
    with True show ?thesis
      by (simp add: loop_blocks push_block_record map_filter_simps split: option.splits)
  next
    case False
    then show ?thesis by (simp add: Cons.IH)
  qed
qed

lemma parseCargoLock_content_lines:
  "parseCargoLock_content content
     = List.map_filter block_record (blocks (split CHR 0x0A content))"
  using loop_blocks_outside [of "[]" "split CHR 0x0A content"]
  by (simp add: parseCargoLock_content_def Let_def split: prod.splits)

lemma chomp_without_cr:
  assumes "CHR 0x0D \<notin> set l"
  shows "chomp l = l"
proof -
  have "\<not> (l \<noteq> [] \<and> last l = CHR 0x0D)"
    using assms last_in_set by metis
  then show ?thesis unfolding chomp_def by argo
qed

lemma text_lines_without_cr:
  assumes "CHR 0x0D \<notin> set content"
  shows "text_lines content = split CHR 0x0A content"
proof -
  have "chomp l = l" if "l \<in> set (split CHR 0x0A content)" for l
    using set_split [OF that] assms by (auto intro: chomp_without_cr)
  then show ?thesis by (simp add: text_lines_def map_idI)
qed

text \<open>
  On a text without carriage returns the parser does what C4 says: its records are those
  of the blocks that have a name and a version, one for each and in their order.
\<close>

lemma parseCargoLock_content_blocks:
  "CHR 0x0D \<notin> set content \<Longrightarrow> parseCargoLock_content content = records_of_blocks content"
  by (simp add: parseCargoLock_content_lines records_of_blocks_def text_lines_without_cr)

lemma parseCargoLock_records_of_blocks:
  assumes "existsSync nd w lockPath" and "readFileSync nd w lockPath = Inr content"
    and "CHR 0x0D \<notin> set content"
  shows "fst (parseCargoLock nd w lockPath) = Inr (Some (records_of_blocks content))"
  using assms by (simp add: parseCargoLock_def parseCargoLock_content_blocks)

lemma records_of_sample_lock:
  "parseCargoLock_content sample_lock
     = [\<lparr>name = ''blake3'', version = ''1.8.3'', source = Some ''registry''\<rparr>,
        \<lparr>name = ''subtle'', version = ''2.5.0'', source = None\<rparr>]"
  by (simp add: parseCargoLock_content_lines sample_lock_def map_filter_simps block_record_def
        last_field_def match_quoted_def is_space_def)

text \<open>
  C4: for all lockfile text the parser is to return one record for each block, opened by a
  \<open>[[package]]\<close> line, that has a name and a version. In a lockfile whose lines end with a
  carriage return and a line feed the delimiter's line carries the carriage return and is
  not taken for a delimiter, though the patterns of the fields accept such lines: of the
  one block of \<open>sample_crlf_lock\<close>, which has both fields, the parser returns no record.
\<close>

theorem parseCargoLock_crlf_no_record:
  "parseCargoLock_content sample_crlf_lock = []
   \<and> fst (parseCargoLock small_node
            (sample_world\<lparr>files := [''proj/Cargo.lock'' \<mapsto> sample_crlf_lock]\<rparr>) ''proj/Cargo.lock'')
       = Inr (Some [])
   \<and> records_of_blocks sample_crlf_lock
       = [\<lparr>name = ''blake3'', version = ''1.8.3'', source = None\<rparr>]"
proof -
  have code: "parseCargoLock_content sample_crlf_lock = []"
    by (simp add: parseCargoLock_content_def sample_crlf_lock_def push_if_complete_def)
  have "records_of_blocks sample_crlf_lock
          = [\<lparr>name = ''blake3'', version = ''1.8.3'', source = None\<rparr>]"
    by (simp add: records_of_blocks_def text_lines_def chomp_def sample_crlf_lock_def
          map_filter_simps block_record_def last_field_def match_quoted_def is_space_def)
  with code show ?thesis
    by (simp add: parseCargoLock_def small_node_def)
qed

subsection \<open>The issue detector\<close>

lemma get_property_cases:
  "get_property crates k =
     (case crates k of
        Some crateInfo \<Rightarrow> Entry crateInfo
      | None \<Rightarrow> if k \<in> set object_prototype_keys then Inherited else Undefined)"
  by (simp add: get_property_def)

lemma pushed_issue:
  "crates (name pkg) = Some crateInfo \<Longrightarrow>
   \<lparr>issue_name = name pkg, currentVersion = version pkg,
    issue_maxCompatible = maxCompatible crateInfo,
    issue_firstIncompatible = firstIncompatible crateInfo,
    issue_reason = (if truthy (reason crateInfo) then the (reason crateInfo)
                    else ''Requires edition 2024''),
    issue_usedBy = (case usedBy crateInfo of Some u \<Rightarrow> u | None \<Rightarrow> []),
    issue_source = source pkg\<rparr> = issue_of crates pkg"
  by (simp add: issue_of_def truthy_def split: option.splits)

text \<open>
  The detector in one equation: it raises when some package is shadowed by an inherited
  member, and otherwise returns the issues of the packages that exceed the table, in order.
\<close>

lemma findProblematicDeps_loop_eq:
  "findProblematicDeps_loop num crates issues packages =
     (if list_ex (shadowed crates) packages
      then Inl (TypeError ''Cannot read properties of undefined (reading split)'')
      else Inr (issues @ map (issue_of crates) (filter (exceeds num crates) packages)))"
proof (induction packages arbitrary: issues)
  case Nil
  show ?case by simp
next
  case (Cons pkg packages)
  show ?case
  proof (cases "crates (name pkg)")
    case None
    then have "\<not> exceeds num crates pkg"
      and "shadowed crates pkg = (name pkg \<in> set object_prototype_keys)"
      by (simp_all add: exceeds_def shadowed_def)
    with None show ?thesis
      by (simp add: Cons.IH get_property_def)
  next
    case (Some crateInfo)
    then have "exceeds num crates pkg
                 = (compareVersions num (version pkg) (maxCompatible crateInfo) > 0)"
      and "\<not> shadowed crates pkg"
      by (simp_all add: exceeds_def shadowed_def)
    with Some show ?thesis
      using pushed_issue [of crates pkg crateInfo]
      by (simp add: Cons.IH get_property_def)
  qed
qed

lemma findProblematicDeps_eq:
  "findProblematicDeps num crates packages =
     (if list_ex (shadowed crates) packages
      then Inl (TypeError ''Cannot read properties of undefined (reading split)'')
      else Inr (map (issue_of crates) (filter (exceeds num crates) packages)))"
  by (simp add: findProblematicDeps_def findProblematicDeps_loop_eq)

text \<open>
  Where no package is shadowed, the detector does what C1 says: one issue for exactly the
  packages that exceed the table, in the order of the packages, each with a current
  version greater than its compatible one.
\<close>

lemma findProblematicDeps_unshadowed:
  assumes "\<not> list_ex (shadowed crates) packages"
  shows "findProblematicDeps num crates packages
           = Inr (map (issue_of crates) (filter (exceeds num crates) packages))"
  using assms by (simp add: findProblematicDeps_eq)

lemma issue_of_exceeds:
  "exceeds num crates pkg \<Longrightarrow>
   compareVersions num (currentVersion (issue_of crates pkg))
     (issue_maxCompatible (issue_of crates pkg)) > 0"
  by (auto simp: exceeds_def issue_of_def split: option.splits)

lemma absent_name_no_issue: "crates (name pkg) = None \<Longrightarrow> \<not> exceeds num crates pkg"
  by (simp add: exceeds_def)

text \<open>
  C1: the detector is to return an issue for exactly the packages whose name is a key of
  the table and whose version compares greater, and none for a name that the table does
  not have. With the packages \<open>blake3 1.8.3\<close> and \<open>constructor 1.0.0\<close> and a table that has
  \<open>blake3\<close> but not \<open>constructor\<close>, the lookup \<open>crates['constructor']\<close> finds the function that
  every object inherits, and the detector raises instead of returning the one issue.
\<close>

theorem findProblematicDeps_inherited_name_raises:
  "findProblematicDeps id sample_crates
     [\<lparr>name = ''blake3'', version = ''1.8.3'', source = None\<rparr>,
      \<lparr>name = ''constructor'', version = ''1.0.0'', source = None\<rparr>]
     = Inl (TypeError ''Cannot read properties of undefined (reading split)'')"
  by (simp add: findProblematicDeps_eq shadowed_def sample_crates_def object_prototype_keys_def)

text \<open>
  C10: when the detector returns, every issue has a non-empty reason, and each package that
  exceeds the table has its issue there, complete: the reason is \<open>Requires edition 2024\<close>
  when the entry has none, the list of dependents is empty when the entry has none, and
  both are the entry's own otherwise.
\<close>

theorem findProblematicDeps_defaults:
  assumes "findProblematicDeps num crates packages = Inr issues"
  shows "(\<forall>i \<in> set issues. issue_reason i \<noteq> [])
         \<and> (\<forall>pkg \<in> set packages. \<forall>crateInfo.
               crates (name pkg) = Some crateInfo
               \<and> compareVersions num (version pkg) (maxCompatible crateInfo) > 0 \<longrightarrow>
               (\<exists>i \<in> set issues.
                   issue_name i = name pkg \<and> currentVersion i = version pkg
                   \<and> issue_maxCompatible i = maxCompatible crateInfo
                   \<and> issue_firstIncompatible i = firstIncompatible crateInfo
                   \<and> issue_source i = source pkg
                   \<and> (reason crateInfo = None \<longrightarrow> issue_reason i = ''Requires edition 2024'')
                   \<and> (\<forall>r. reason crateInfo = Some r \<and> r \<noteq> [] \<longrightarrow> issue_reason i = r)
                   \<and> (usedBy crateInfo = None \<longrightarrow> issue_usedBy i = [])
                   \<and> (\<forall>u. usedBy crateInfo = Some u \<longrightarrow> issue_usedBy i = u)))"
proof -
  have issues: "issues = map (issue_of crates) (filter (exceeds num crates) packages)"
    using assms by (simp add: findProblematicDeps_eq split: if_splits)
  have reason: "issue_reason (issue_of crates pkg) \<noteq> []" for pkg
    by (simp add: issue_of_def Let_def split: option.splits)
  have "\<exists>i \<in> set issues.
          issue_name i = name pkg \<and> currentVersion i = version pkg
          \<and> issue_maxCompatible i = maxCompatible crateInfo
          \<and> issue_firstIncompatible i = firstIncompatible crateInfo
          \<and> issue_source i = source pkg
          \<and> (reason crateInfo = None \<longrightarrow> issue_reason i = ''Requires edition 2024'')
          \<and> (\<forall>r. reason crateInfo = Some r \<and> r \<noteq> [] \<longrightarrow> issue_reason i = r)
          \<and> (usedBy crateInfo = None \<longrightarrow> issue_usedBy i = [])
          \<and> (\<forall>u. usedBy crateInfo = Some u \<longrightarrow> issue_usedBy i = u)"
    if "pkg \<in> set packages" and "crates (name pkg) = Some crateInfo"
      and "compareVersions num (version pkg) (maxCompatible crateInfo) > 0"
    for pkg crateInfo
  proof (rule bexI [where x = "issue_of crates pkg"])
    show "issue_of crates pkg \<in> set issues"
      using that by (simp add: issues exceeds_def)
    show "issue_name (issue_of crates pkg) = name pkg
          \<and> currentVersion (issue_of crates pkg) = version pkg
          \<and> issue_maxCompatible (issue_of crates pkg) = maxCompatible crateInfo
          \<and> issue_firstIncompatible (issue_of crates pkg) = firstIncompatible crateInfo
          \<and> issue_source (issue_of crates pkg) = source pkg
          \<and> (reason crateInfo = None \<longrightarrow>
                issue_reason (issue_of crates pkg) = ''Requires edition 2024'')
          \<and> (\<forall>r. reason crateInfo = Some r \<and> r \<noteq> [] \<longrightarrow> issue_reason (issue_of crates pkg) = r)
          \<and> (usedBy crateInfo = None \<longrightarrow> issue_usedBy (issue_of crates pkg) = [])
          \<and> (\<forall>u. usedBy crateInfo = Some u \<longrightarrow> issue_usedBy (issue_of crates pkg) = u)"
      using that(2) by (simp add: issue_of_def)
  qed
  with reason show ?thesis by (auto simp: issues)
qed

theorem findProblematicDeps_defaults_witness:
  "findProblematicDeps id sample_crates
     [\<lparr>name = ''blake3'', version = ''1.8.3'', source = None\<rparr>,
      \<lparr>name = ''serde'', version = ''1.0.0'', source = None\<rparr>,
      \<lparr>name = ''subtle'', version = ''2.5.0'', source = None\<rparr>]
     = Inr [\<lparr>issue_name = ''blake3'', currentVersion = ''1.8.3'',
             issue_maxCompatible = ''1.5.0'', issue_firstIncompatible = Some ''1.6.0'',
             issue_reason = ''Requires edition 2024'', issue_usedBy = [],
             issue_source = None\<rparr>]
   \<and> reason (the (sample_crates ''blake3'')) = None
   \<and> usedBy (the (sample_crates ''blake3'')) = None
   \<and> compareVersions id ''1.8.3'' (maxCompatible (the (sample_crates ''blake3''))) > 0"
proof -
  have entry: "reason (the (sample_crates ''blake3'')) = None
     \<and> usedBy (the (sample_crates ''blake3'')) = None
     \<and> compareVersions id ''1.8.3'' (maxCompatible (the (sample_crates ''blake3''))) > 0"
    by (simp add: sample_crates_def compareVersions_version_order version_eval)
  have run: "findProblematicDeps id sample_crates
     [\<lparr>name = ''blake3'', version = ''1.8.3'', source = None\<rparr>,
      \<lparr>name = ''serde'', version = ''1.0.0'', source = None\<rparr>,
      \<lparr>name = ''subtle'', version = ''2.5.0'', source = None\<rparr>]
     = Inr [\<lparr>issue_name = ''blake3'', currentVersion = ''1.8.3'',
             issue_maxCompatible = ''1.5.0'', issue_firstIncompatible = Some ''1.6.0'',
             issue_reason = ''Requires edition 2024'', issue_usedBy = [],
             issue_source = None\<rparr>]"
    by (simp add: findProblematicDeps_eq shadowed_def exceeds_def issue_of_def sample_crates_def
          object_prototype_keys_def compareVersions_version_order version_eval)
  from findProblematicDeps_defaults [OF run] run entry show ?thesis by blast
qed

subsection \<open>Remediation text\<close>

lemma foldl_push: "foldl (\<lambda>lines x. lines @ [f x]) acc xs = acc @ map f xs"
  by (induction xs arbitrary: acc) simp_all

lemma join_Cons: "join sep (x # xs) = x @ concat (map (\<lambda>y. sep @ y) xs)"
  by (induction xs arbitrary: x) simp_all

lemma split_no_separator: "c \<notin> set s \<Longrightarrow> split c s = [s]"
  by (induction s) auto

lemma split_append_separator: "c \<notin> set a \<Longrightarrow> split c (a @ c # rest) = a # split c rest"
  by (induction a) auto

lemma split_joined_lines:
  "c \<notin> set x \<Longrightarrow> \<forall>y \<in> set ys. c \<notin> set y \<Longrightarrow>
   split c (x @ concat (map (\<lambda>y. c # y) ys)) = x # ys"
proof (induction ys arbitrary: x)
  case Nil
  then show ?case by (simp add: split_no_separator)
next
  case (Cons y ys)
  then show ?case
    using split_append_separator [of c x "y @ concat (map (\<lambda>y. c # y) ys)"] by simp
qed

text \<open>
  C5 as stated: for the issue of \<open>zeroize\<close> with compatible version \<open>1.7.0\<close> the generated
  command is to be \<open>update -p zeroize --precise 1.7.0\<close>. The generated string starts with
  the program's name.
\<close>

theorem generateCargoUpdateCommands_counterexample:
  "generateCargoUpdateCommands [sample_issue ''zeroize'' ''1.8.1'' ''1.7.0'']
     \<noteq> [''update -p zeroize --precise 1.7.0'']"
  by (simp add: generateCargoUpdateCommands_def sample_issue_def)

text \<open>
  C5 as amended: one command for each issue, in the order of the issues, each the word
  \<open>cargo\<close>, a space and \<open>update -p <name> --precise <maxCompatible>\<close>; for the issue of
  \<open>zeroize\<close> it is \<open>cargo update -p zeroize --precise 1.7.0\<close>.
\<close>

theorem generateCargoUpdateCommands_cargo_prefix:
  "generateCargoUpdateCommands issues = map (\<lambda>issue. ''cargo '' @ update_command issue) issues
   \<and> length (generateCargoUpdateCommands issues) = length issues
   \<and> (\<forall>k < length issues.
         generateCargoUpdateCommands issues ! k = ''cargo '' @ update_command (issues ! k))
   \<and> generateCargoUpdateCommands [sample_issue ''zeroize'' current ''1.7.0'']
       = [''cargo update -p zeroize --precise 1.7.0'']"
  by (simp add: generateCargoUpdateCommands_def update_command_def sample_issue_def)

theorem generateCargoUpdateCommands_cargo_prefix_witness:
  "generateCargoUpdateCommands
     [sample_issue ''zeroize'' ''1.8.1'' ''1.7.0'', sample_issue ''zeroize'' ''1.9.0'' ''1.7.0'',
      sample_issue ''blake3'' ''1.8.3'' ''1.5.0'']
     = [''cargo update -p zeroize --precise 1.7.0'', ''cargo update -p zeroize --precise 1.7.0'',
        ''cargo update -p blake3 --precise 1.5.0'']
   \<and> (2::nat) < length [sample_issue ''zeroize'' ''1.8.1'' ''1.7.0'',
         sample_issue ''zeroize'' ''1.9.0'' ''1.7.0'', sample_issue ''blake3'' ''1.8.3'' ''1.5.0'']"
  using generateCargoUpdateCommands_cargo_prefix
    [of "[sample_issue ''zeroize'' ''1.8.1'' ''1.7.0'', sample_issue ''zeroize'' ''1.9.0'' ''1.7.0'',
          sample_issue ''blake3'' ''1.8.3'' ''1.5.0'']"]
  by (simp add: update_command_def sample_issue_def)

text \<open>
  C6: the patch section is the header \<open>[patch.crates-io]\<close> followed, for each issue in
  order, by a line feed and the line \<open><name> = "=<maxCompatible>"\<close>; when no name or version
  holds a line feed its lines are the header and one line for each issue; for the issue of
  \<open>blake3\<close> with compatible version \<open>1.5.0\<close> these are the header and \<open>blake3 = "=1.5.0"\<close>.
\<close>

theorem generatePatchSection_lines:
  \<open>generatePatchSection issues
     = ''[patch.crates-io]'' @ concat (map (\<lambda>issue. CHR 0x0A # patch_line issue) issues)
   \<and> ((\<forall>issue \<in> set issues. CHR 0x0A \<notin> set (patch_line issue)) \<longrightarrow>
        split CHR 0x0A (generatePatchSection issues)
          = ''[patch.crates-io]'' # map patch_line issues)
   \<and> generatePatchSection [sample_issue ''blake3'' current ''1.5.0'']
       = ''[patch.crates-io]'' @ [CHR 0x0A] @ ''blake3 = "=1.5.0"''\<close>
proof -
  have eq: "generatePatchSection issues
              = ''[patch.crates-io]'' @ concat (map (\<lambda>issue. CHR 0x0A # patch_line issue) issues)"
    for issues
    by (simp add: generatePatchSection_def foldl_push [of _ "[''[patch.crates-io]'']"]
          join_Cons patch_line_def comp_def)
  have "split CHR 0x0A (generatePatchSection issues) = ''[patch.crates-io]'' # map patch_line issues"
    if "\<forall>issue \<in> set issues. CHR 0x0A \<notin> set (patch_line issue)"
    using split_joined_lines [of "CHR 0x0A" "''[patch.crates-io]''" "map patch_line issues"] that
    by (simp add: eq comp_def)
  moreover have \<open>generatePatchSection [sample_issue ''blake3'' current ''1.5.0'']
                  = ''[patch.crates-io]'' @ [CHR 0x0A] @ ''blake3 = "=1.5.0"''\<close>
    by (simp add: eq patch_line_def sample_issue_def)
  ultimately show ?thesis using eq by blast
qed

theorem generatePatchSection_lines_witness:
  \<open>CHR 0x0A \<notin> set (patch_line (sample_issue ''blake3'' ''1.8.3'' ''1.5.0''))
   \<and> CHR 0x0A \<notin> set (patch_line (sample_issue ''subtle'' ''2.6.1'' ''2.5.0''))
   \<and> split CHR 0x0A (generatePatchSection
         [sample_issue ''blake3'' ''1.8.3'' ''1.5.0'', sample_issue ''subtle'' ''2.6.1'' ''2.5.0''])
       = [''[patch.crates-io]'', ''blake3 = "=1.5.0"'', ''subtle = "=2.5.0"'']\<close>
proof -
  have h: "\<forall>issue \<in> set [sample_issue ''blake3'' ''1.8.3'' ''1.5.0'',
             sample_issue ''subtle'' ''2.6.1'' ''2.5.0'']. CHR 0x0A \<notin> set (patch_line issue)"
    by (simp add: patch_line_def sample_issue_def)
  with generatePatchSection_lines
         [of "[sample_issue ''blake3'' ''1.8.3'' ''1.5.0'', sample_issue ''subtle'' ''2.6.1'' ''2.5.0'']"]
  show ?thesis by (simp add: patch_line_def sample_issue_def)
qed

subsection \<open>Files\<close>

text \<open>
  C7: when the manifest does not exist, \<open>analyze\<close> returns a result with \<open>success\<close> false and
  a non-empty error; the one call it makes is the test for the manifest, so the lockfile is
  neither looked for nor read.
\<close>

theorem analyze_missing_manifest:
  assumes "\<not> existsSync nd w (path_join nd [projectPath, ''Cargo.toml''])"
  shows "\<exists>r msg. fst (analyze nd num crates w projectPath) = Inr r
           \<and> success r = False \<and> error r = Some msg \<and> msg \<noteq> []
           \<and> cargoTomlInfo r = None \<and> result_issues r = None \<and> totalPackages r = None
           \<and> snd (analyze nd num crates w projectPath)
               = [ExistsSync (path_join nd [projectPath, ''Cargo.toml''])]"
  using assms by (simp add: analyze_def Let_def)

theorem analyze_missing_manifest_witness:
  "\<not> existsSync small_node sample_world (path_join small_node [''other'', ''Cargo.toml''])
   \<and> (\<exists>r msg. fst (analyze small_node id sample_crates sample_world ''other'') = Inr r
           \<and> success r = False \<and> error r = Some msg \<and> msg \<noteq> []
           \<and> cargoTomlInfo r = None \<and> result_issues r = None \<and> totalPackages r = None
           \<and> snd (analyze small_node id sample_crates sample_world ''other'')
               = [ExistsSync (path_join small_node [''other'', ''Cargo.toml''])])"
proof -
  have h: "\<not> existsSync small_node sample_world (path_join small_node [''other'', ''Cargo.toml''])"
    by (simp add: small_node_def sample_world_def)
  from analyze_missing_manifest [OF h, of id sample_crates] h show ?thesis by blast
qed

text \<open>
  C8: the parser returns \<open>null\<close> for a lockfile that does not exist and the empty list for one
  that exists and is empty; and when the manifest exists and can be read while the lockfile
  does not exist, \<open>analyze\<close> returns, without raising, a result with \<open>success\<close> false that
  carries what \<open>checkCargoToml\<close> read from the manifest.
\<close>

theorem missing_lockfile_is_not_empty_lockfile:
  "(\<not> existsSync nd w lockPath \<longrightarrow> fst (parseCargoLock nd w lockPath) = Inr None)
   \<and> (existsSync nd w lockPath \<and> readFileSync nd w lockPath = Inr [] \<longrightarrow>
        fst (parseCargoLock nd w lockPath) = Inr (Some []))
   \<and> (existsSync nd w (path_join nd [projectPath, ''Cargo.toml''])
       \<and> readFileSync nd w (path_join nd [projectPath, ''Cargo.toml'']) = Inr manifest
       \<and> \<not> existsSync nd w (path_join nd [projectPath, ''Cargo.lock'']) \<longrightarrow>
        (\<exists>r info. fst (analyze nd num crates w projectPath) = Inr r
           \<and> success r = False
           \<and> error r = Some ''No Cargo.lock found. Run `cargo generate-lockfile` first.''
           \<and> cargoTomlInfo r = Some info
           \<and> fst (checkCargoToml nd w projectPath) = Inr info
           \<and> info = Exists (matches_somewhere match_rust_version_eq manifest)
                       (first_match (match_quoted ''rust-version'') manifest)
                       (matches_somewhere (starts_with ''[patch.crates-io]'') manifest)
                       (path_join nd [projectPath, ''Cargo.toml''])))"
proof -
  have "parseCargoLock_content [] = []"
    by (simp add: parseCargoLock_content_def push_if_complete_def)
  then show ?thesis
    by (simp add: parseCargoLock_def analyze_def checkCargoToml_def Let_def)
qed

theorem missing_lockfile_is_not_empty_lockfile_witness:
  "\<not> existsSync small_node sample_world ''other/Cargo.lock''
   \<and> fst (parseCargoLock small_node sample_world ''other/Cargo.lock'') = Inr None
   \<and> existsSync small_node (sample_world\<lparr>files := [''proj/Cargo.lock'' \<mapsto> []]\<rparr>) ''proj/Cargo.lock''
   \<and> readFileSync small_node (sample_world\<lparr>files := [''proj/Cargo.lock'' \<mapsto> []]\<rparr>)
        ''proj/Cargo.lock'' = Inr []
   \<and> fst (parseCargoLock small_node (sample_world\<lparr>files := [''proj/Cargo.lock'' \<mapsto> []]\<rparr>)
        ''proj/Cargo.lock'') = Inr (Some [])
   \<and> existsSync small_node (sample_world\<lparr>files := [''proj/Cargo.toml'' \<mapsto> sample_manifest]\<rparr>)
        (path_join small_node [''proj'', ''Cargo.toml''])
   \<and> readFileSync small_node (sample_world\<lparr>files := [''proj/Cargo.toml'' \<mapsto> sample_manifest]\<rparr>)
        (path_join small_node [''proj'', ''Cargo.toml'']) = Inr sample_manifest
   \<and> \<not> existsSync small_node (sample_world\<lparr>files := [''proj/Cargo.toml'' \<mapsto> sample_manifest]\<rparr>)
        (path_join small_node [''proj'', ''Cargo.lock''])
   \<and> (\<exists>r. fst (analyze small_node id sample_crates
                 (sample_world\<lparr>files := [''proj/Cargo.toml'' \<mapsto> sample_manifest]\<rparr>) ''proj'') = Inr r
          \<and> success r = False
          \<and> cargoTomlInfo r = Some (Exists True (Some ''1.75'') False ''proj/Cargo.toml''))"
proof -
  let ?w1 = "sample_world\<lparr>files := [''proj/Cargo.lock'' \<mapsto> []]\<rparr>"
  let ?w2 = "sample_world\<lparr>files := [''proj/Cargo.toml'' \<mapsto> sample_manifest]\<rparr>"
  have a: "\<not> existsSync small_node sample_world ''other/Cargo.lock''"
    by (simp add: small_node_def sample_world_def)
  have b: "existsSync small_node ?w1 ''proj/Cargo.lock''"
    and c: "readFileSync small_node ?w1 ''proj/Cargo.lock'' = Inr []"
    by (simp_all add: small_node_def)
  have d: "existsSync small_node ?w2 (path_join small_node [''proj'', ''Cargo.toml''])"
    and e: "readFileSync small_node ?w2 (path_join small_node [''proj'', ''Cargo.toml''])
              = Inr sample_manifest"
    and f: "\<not> existsSync small_node ?w2 (path_join small_node [''proj'', ''Cargo.lock''])"
    by (simp_all add: small_node_def)
  have p: "path_join small_node [''proj'', ''Cargo.toml''] = ''proj/Cargo.toml''"
    by (simp add: small_node_def)
  have m1: "matches_somewhere match_rust_version_eq sample_manifest"
    by (simp add: sample_manifest_def match_rust_version_eq_def starts_with_def is_space_def)
  have m2: "first_match (match_quoted ''rust-version'') sample_manifest = Some ''1.75''"
    by (simp add: sample_manifest_def match_quoted_def is_space_def)
  have m3: "\<not> matches_somewhere (starts_with ''[patch.crates-io]'') sample_manifest"
    by (simp add: sample_manifest_def starts_with_def)
  from missing_lockfile_is_not_empty_lockfile
         [of small_node sample_world "''other/Cargo.lock''" "''proj''" sample_manifest id sample_crates]
       a
  have 1: "fst (parseCargoLock small_node sample_world ''other/Cargo.lock'') = Inr None"
    by blast
  from missing_lockfile_is_not_empty_lockfile
         [of small_node ?w1 "''proj/Cargo.lock''" "''proj''" sample_manifest id sample_crates]
       b c
  have 2: "fst (parseCargoLock small_node ?w1 ''proj/Cargo.lock'') = Inr (Some [])"
    by blast
  from missing_lockfile_is_not_empty_lockfile
         [of small_node ?w2 "''proj/Cargo.lock''" "''proj''" sample_manifest id sample_crates]
       d e f
  have 3: "\<exists>r. fst (analyze small_node id sample_crates ?w2 ''proj'') = Inr r
             \<and> success r = False
             \<and> cargoTomlInfo r = Some (Exists True (Some ''1.75'') False ''proj/Cargo.toml'')"
    unfolding p using m1 m2 m3 by auto
  from a b c d e f 1 2 3 show ?thesis by blast
qed

subsection \<open>The fix executor\<close>

lemma write_config_no_spawn:
  "filter is_spawn (snd (snd (write_config nd w p))) = []"
  by (simp add: write_config_def is_spawn_def split: prod.splits option.splits)

lemma create_config_no_spawn:
  "filter is_spawn (snd (snd (create_config nd w projectPath))) = []"
proof -
  have "filter is_spawn calls = []" if "write_config nd w' p = (created, w'', calls)"
    for w' p created w'' calls
    using write_config_no_spawn [of nd w' p] that by simp
  then show ?thesis
    by (auto simp: create_config_def Let_def is_spawn_def split: prod.splits option.splits)
qed

lemma record_outcome_names:
  "mset (updated (record_outcome results issue outcome)
         @ skipped (record_outcome results issue outcome)
         @ map fst (failed (record_outcome results issue outcome)))
     = mset (updated results @ skipped results @ map fst (failed results))
       + {#issue_name issue#}"
  by (simp add: record_outcome_def split: sum.splits)

lemma applyFixes_loop_Cons:
  "applyFixes_loop nd projectPath opts results w (issue # issues) =
     (let sp = spawnSync nd w ''cargo''
                 [''update'', ''-p'', issue_name issue, ''--precise'', issue_maxCompatible issue]
                 projectPath (verbose opts);
          rest = applyFixes_loop nd projectPath opts (record_outcome results issue (fst sp))
                   (snd sp) issues
      in (fst rest, fst (snd rest), update_call projectPath opts issue # snd (snd rest)))"
  by (simp add: Let_def update_call_def split: prod.splits)

lemma applyFixes_loop_calls:
  "snd (snd (applyFixes_loop nd projectPath opts results w issues))
     = map (update_call projectPath opts) issues"
  by (induction issues arbitrary: results w)
     (simp_all add: applyFixes_loop_Cons Let_def del: applyFixes_loop.simps(2))

lemma applyFixes_loop_names:
  "mset (updated (fst (applyFixes_loop nd projectPath opts results w issues))
         @ skipped (fst (applyFixes_loop nd projectPath opts results w issues))
         @ map fst (failed (fst (applyFixes_loop nd projectPath opts results w issues))))
     = mset (updated results @ skipped results @ map fst (failed results))
       + mset (map issue_name issues)"
proof (induction issues arbitrary: results w)
  case Nil
  show ?case by simp
next
  case (Cons issue issues)
  let ?sp = "spawnSync nd w ''cargo''
               [''update'', ''-p'', issue_name issue, ''--precise'', issue_maxCompatible issue]
               projectPath (verbose opts)"
  have "fst (applyFixes_loop nd projectPath opts results w (issue # issues))
          = fst (applyFixes_loop nd projectPath opts (record_outcome results issue (fst ?sp))
                   (snd ?sp) issues)"
    by (simp add: applyFixes_loop_Cons Let_def del: applyFixes_loop.simps(2))
  then show ?case
    using Cons.IH [of "record_outcome results issue (fst ?sp)" "snd ?sp"]
          record_outcome_names [of results issue "fst ?sp"]
    by simp
qed

lemma is_spawn_update_call: "is_spawn (update_call projectPath opts issue)"
  by (simp add: is_spawn_def update_call_def)

lemma spawn_outcomes_Cons:
  "spawn_outcomes nd projectPath opts w (issue # issues) =
     (let sp = spawnSync nd w ''cargo''
                 [''update'', ''-p'', issue_name issue, ''--precise'', issue_maxCompatible issue]
                 projectPath (verbose opts)
      in fst sp # spawn_outcomes nd projectPath opts (snd sp) issues)"
  by (simp add: Let_def split: prod.splits)

lemma record_outcome_updated:
  "updated (record_outcome results issue outcome)
     = updated results @ (if classify outcome = Updated then [issue_name issue] else [])"
  by (simp add: record_outcome_def classify_def truthy_def split: sum.splits option.splits)

lemma record_outcome_skipped:
  "skipped (record_outcome results issue outcome)
     = skipped results @ (if classify outcome = Skipped then [issue_name issue] else [])"
  by (simp add: record_outcome_def classify_def truthy_def split: sum.splits option.splits)

lemma record_outcome_failed:
  "failed (record_outcome results issue outcome)
     = failed results
       @ (case failure_of (issue, outcome) of None \<Rightarrow> [] | Some f \<Rightarrow> [f])"
  by (simp add: record_outcome_def failure_of_def classify_def truthy_def
        split: sum.splits option.splits)

lemma record_outcome_configCreated:
  "configCreated (record_outcome results issue outcome) = configCreated results"
  by (simp add: record_outcome_def split: sum.splits)

lemma record_outcome_cargoTomlUpdated:
  "cargoTomlUpdated (record_outcome results issue outcome) = cargoTomlUpdated results"
  by (simp add: record_outcome_def split: sum.splits)

text \<open>The lists that the loop returns, in terms of what the package manager answered.\<close>

lemma applyFixes_loop_verdicts:
  "updated (fst (applyFixes_loop nd projectPath opts results w issues))
     = updated results
       @ map (issue_name \<circ> fst)
           (filter (\<lambda>x. classify (snd x) = Updated)
              (zip issues (spawn_outcomes nd projectPath opts w issues)))
   \<and> skipped (fst (applyFixes_loop nd projectPath opts results w issues))
     = skipped results
       @ map (issue_name \<circ> fst)
           (filter (\<lambda>x. classify (snd x) = Skipped)
              (zip issues (spawn_outcomes nd projectPath opts w issues)))
   \<and> failed (fst (applyFixes_loop nd projectPath opts results w issues))
     = failed results
       @ List.map_filter failure_of (zip issues (spawn_outcomes nd projectPath opts w issues))
   \<and> configCreated (fst (applyFixes_loop nd projectPath opts results w issues))
     = configCreated results
   \<and> cargoTomlUpdated (fst (applyFixes_loop nd projectPath opts results w issues))
     = cargoTomlUpdated results"
proof (induction issues arbitrary: results w)
  case Nil
  show ?case by (simp add: map_filter_simps)
next
  case (Cons issue issues)
  let ?sp = "spawnSync nd w ''cargo''
               [''update'', ''-p'', issue_name issue, ''--precise'', issue_maxCompatible issue]
               projectPath (verbose opts)"
  have step: "fst (applyFixes_loop nd projectPath opts results w (issue # issues))
          = fst (applyFixes_loop nd projectPath opts (record_outcome results issue (fst ?sp))
                   (snd ?sp) issues)"
    by (simp add: applyFixes_loop_Cons Let_def del: applyFixes_loop.simps(2))
  have outs: "spawn_outcomes nd projectPath opts w (issue # issues)
          = fst ?sp # spawn_outcomes nd projectPath opts (snd ?sp) issues"
    by (simp add: spawn_outcomes_Cons Let_def del: spawn_outcomes.simps(2))
  show ?case
    unfolding step outs
    using Cons.IH [of "record_outcome results issue (fst ?sp)" "snd ?sp"]
    by (simp add: record_outcome_updated record_outcome_skipped record_outcome_failed
          record_outcome_configCreated record_outcome_cargoTomlUpdated map_filter_simps
          split: option.splits)
qed

text \<open>The configuration step, case by case.\<close>

lemma create_config_present:
  "existsSync nd w (path_join nd [projectPath, ''.cargo'', ''config.toml'']) \<Longrightarrow>
   create_config nd w projectPath
     = (False, w, [ExistsSync (path_join nd [projectPath, ''.cargo'', ''config.toml''])])"
  by (simp add: create_config_def Let_def)

lemma create_config_write:
  "\<not> existsSync nd w (path_join nd [projectPath, ''.cargo'', ''config.toml'']) \<Longrightarrow>
   existsSync nd w (path_join nd [projectPath, ''.cargo'']) \<Longrightarrow>
   create_config nd w projectPath
     = (fst (writeFileSync nd w (path_join nd [projectPath, ''.cargo'', ''config.toml''])
               generateCargoConfig) = None,
        snd (writeFileSync nd w (path_join nd [projectPath, ''.cargo'', ''config.toml''])
               generateCargoConfig),
        [ExistsSync (path_join nd [projectPath, ''.cargo'', ''config.toml'']),
         ExistsSync (path_join nd [projectPath, ''.cargo'']),
         WriteFileSync (path_join nd [projectPath, ''.cargo'', ''config.toml''])
           generateCargoConfig])"
  by (simp add: create_config_def write_config_def Let_def split: prod.splits option.splits)

lemma create_config_mkdir_write:
  "\<not> existsSync nd w (path_join nd [projectPath, ''.cargo'', ''config.toml'']) \<Longrightarrow>
   \<not> existsSync nd w (path_join nd [projectPath, ''.cargo'']) \<Longrightarrow>
   fst (mkdirSync nd w (path_join nd [projectPath, ''.cargo''])) = None \<Longrightarrow>
   create_config nd w projectPath
     = (fst (writeFileSync nd (snd (mkdirSync nd w (path_join nd [projectPath, ''.cargo''])))
               (path_join nd [projectPath, ''.cargo'', ''config.toml'']) generateCargoConfig)
          = None,
        snd (writeFileSync nd (snd (mkdirSync nd w (path_join nd [projectPath, ''.cargo''])))
               (path_join nd [projectPath, ''.cargo'', ''config.toml'']) generateCargoConfig),
        [ExistsSync (path_join nd [projectPath, ''.cargo'', ''config.toml'']),
         ExistsSync (path_join nd [projectPath, ''.cargo'']),
         MkdirSync (path_join nd [projectPath, ''.cargo'']),
         WriteFileSync (path_join nd [projectPath, ''.cargo'', ''config.toml''])
           generateCargoConfig])"
proof -
  assume a: "\<not> existsSync nd w (path_join nd [projectPath, ''.cargo'', ''config.toml''])"
    "\<not> existsSync nd w (path_join nd [projectPath, ''.cargo''])"
    "fst (mkdirSync nd w (path_join nd [projectPath, ''.cargo''])) = None"
  obtain w1 where m: "mkdirSync nd w (path_join nd [projectPath, ''.cargo'']) = (None, w1)"
    using a(3) by (cases "mkdirSync nd w (path_join nd [projectPath, ''.cargo''])") auto
  obtain e w2 where wr:
    "writeFileSync nd w1 (path_join nd [projectPath, ''.cargo'', ''config.toml''])
       generateCargoConfig = (e, w2)"
    by (cases "writeFileSync nd w1 (path_join nd [projectPath, ''.cargo'', ''config.toml''])
       generateCargoConfig") auto
  show ?thesis
    using a(1,2) by (cases e) (simp_all add: create_config_def write_config_def Let_def m wr)
qed

lemma create_config_mkdir_raises:
  "\<not> existsSync nd w (path_join nd [projectPath, ''.cargo'', ''config.toml'']) \<Longrightarrow>
   \<not> existsSync nd w (path_join nd [projectPath, ''.cargo'']) \<Longrightarrow>
   fst (mkdirSync nd w (path_join nd [projectPath, ''.cargo''])) \<noteq> None \<Longrightarrow>
   create_config nd w projectPath
     = (False, snd (mkdirSync nd w (path_join nd [projectPath, ''.cargo''])),
        [ExistsSync (path_join nd [projectPath, ''.cargo'', ''config.toml'']),
         ExistsSync (path_join nd [projectPath, ''.cargo'']),
         MkdirSync (path_join nd [projectPath, ''.cargo''])])"
  by (auto simp: create_config_def Let_def split: prod.splits option.splits)

text \<open>
  C9: with no issue, \<open>applyFixes\<close> is its configuration step and calls no subprocess. That
  step leaves an existing \<open>.cargo/config.toml\<close> alone after the one test for it; when the
  file is missing it creates the directory \<open>.cargo\<close> if that is missing too, writes the
  configuration text to the file, and reports the file as created exactly when the write
  did not raise; when creating the directory raises, nothing is written. With any list of
  issues and whatever each subprocess does, the subprocess calls are the update of each
  issue, once and in the order of the list; the names recorded as updated, skipped or
  failed are the names of the issues, each as often as it is listed; and the three lists
  hold, in the order of the issues, those whose invocation was an update, a skip and a
  failure, the failures with their error text.
\<close>

theorem applyFixes_attempts_every_issue:
  "applyFixes nd w projectPath [] opts
     = (case create_config nd w projectPath of
          (created, w1, calls1) \<Rightarrow>
            (\<lparr>updated = [], failed = [], skipped = [], configCreated = created,
              cargoTomlUpdated = False\<rparr>, w1, calls1))
   \<and> filter is_spawn (snd (snd (applyFixes nd w projectPath [] opts))) = []
   \<and> filter is_spawn (snd (snd (applyFixes nd w projectPath issues opts)))
       = map (update_call projectPath opts) issues
   \<and> mset (updated (fst (applyFixes nd w projectPath issues opts))
           @ skipped (fst (applyFixes nd w projectPath issues opts))
           @ map fst (failed (fst (applyFixes nd w projectPath issues opts))))
       = mset (map issue_name issues)
   \<and> (existsSync nd w (path_join nd [projectPath, ''.cargo'', ''config.toml'']) \<longrightarrow>
        applyFixes nd w projectPath [] opts
          = (\<lparr>updated = [], failed = [], skipped = [], configCreated = False,
              cargoTomlUpdated = False\<rparr>, w,
             [ExistsSync (path_join nd [projectPath, ''.cargo'', ''config.toml''])]))
   \<and> (\<not> existsSync nd w (path_join nd [projectPath, ''.cargo'', ''config.toml''])
       \<and> existsSync nd w (path_join nd [projectPath, ''.cargo'']) \<longrightarrow>
        applyFixes nd w projectPath [] opts
          = (\<lparr>updated = [], failed = [], skipped = [],
              configCreated =
                (fst (writeFileSync nd w (path_join nd [projectPath, ''.cargo'', ''config.toml''])
                        generateCargoConfig) = None),
              cargoTomlUpdated = False\<rparr>,
             snd (writeFileSync nd w (path_join nd [projectPath, ''.cargo'', ''config.toml''])
                    generateCargoConfig),
             [ExistsSync (path_join nd [projectPath, ''.cargo'', ''config.toml'']),
              ExistsSync (path_join nd [projectPath, ''.cargo'']),
              WriteFileSync (path_join nd [projectPath, ''.cargo'', ''config.toml''])
                generateCargoConfig]))
   \<and> (\<not> existsSync nd w (path_join nd [projectPath, ''.cargo'', ''config.toml''])
       \<and> \<not> existsSync nd w (path_join nd [projectPath, ''.cargo''])
       \<and> fst (mkdirSync nd w (path_join nd [projectPath, ''.cargo''])) = None \<longrightarrow>
        applyFixes nd w projectPath [] opts
          = (\<lparr>updated = [], failed = [], skipped = [],
              configCreated =
                (fst (writeFileSync nd (snd (mkdirSync nd w (path_join nd [projectPath, ''.cargo''])))
                        (path_join nd [projectPath, ''.cargo'', ''config.toml''])
                        generateCargoConfig) = None),
              cargoTomlUpdated = False\<rparr>,
             snd (writeFileSync nd (snd (mkdirSync nd w (path_join nd [projectPath, ''.cargo''])))
                    (path_join nd [projectPath, ''.cargo'', ''config.toml'']) generateCargoConfig),
             [ExistsSync (path_join nd [projectPath, ''.cargo'', ''config.toml'']),
              ExistsSync (path_join nd [projectPath, ''.cargo'']),
              MkdirSync (path_join nd [projectPath, ''.cargo'']),
              WriteFileSync (path_join nd [projectPath, ''.cargo'', ''config.toml''])
                generateCargoConfig]))
   \<and> (\<not> existsSync nd w (path_join nd [projectPath, ''.cargo'', ''config.toml''])
       \<and> \<not> existsSync nd w (path_join nd [projectPath, ''.cargo''])
       \<and> fst (mkdirSync nd w (path_join nd [projectPath, ''.cargo''])) \<noteq> None \<longrightarrow>
        applyFixes nd w projectPath [] opts
          = (\<lparr>updated = [], failed = [], skipped = [], configCreated = False,
              cargoTomlUpdated = False\<rparr>,
             snd (mkdirSync nd w (path_join nd [projectPath, ''.cargo''])),
             [ExistsSync (path_join nd [projectPath, ''.cargo'', ''config.toml'']),
              ExistsSync (path_join nd [projectPath, ''.cargo'']),
              MkdirSync (path_join nd [projectPath, ''.cargo''])]))
   \<and> updated (fst (applyFixes nd w projectPath issues opts))
       = map (issue_name \<circ> fst)
           (filter (\<lambda>x. classify (snd x) = Updated)
              (zip issues
                 (spawn_outcomes nd projectPath opts
                    (fst (snd (applyFixes nd w projectPath [] opts))) issues)))
   \<and> skipped (fst (applyFixes nd w projectPath issues opts))
       = map (issue_name \<circ> fst)
           (filter (\<lambda>x. classify (snd x) = Skipped)
              (zip issues
                 (spawn_outcomes nd projectPath opts
                    (fst (snd (applyFixes nd w projectPath [] opts))) issues)))
   \<and> failed (fst (applyFixes nd w projectPath issues opts))
       = List.map_filter failure_of
           (zip issues
              (spawn_outcomes nd projectPath opts
                 (fst (snd (applyFixes nd w projectPath [] opts))) issues))
   \<and> configCreated (fst (applyFixes nd w projectPath issues opts))
       = configCreated (fst (applyFixes nd w projectPath [] opts))
   \<and> cargoTomlUpdated (fst (applyFixes nd w projectPath issues opts)) = False"
proof -
  obtain created w1 calls1 where cc: "create_config nd w projectPath = (created, w1, calls1)"
    by (cases "create_config nd w projectPath") auto
  have ns: "filter is_spawn calls1 = []"
    using create_config_no_spawn [of nd w projectPath] by (simp add: cc)
  let ?start = "\<lparr>updated = [], failed = [], skipped = [], configCreated = created,
                 cargoTomlUpdated = False\<rparr>"
  have run: "applyFixes nd w projectPath iss opts
               = (fst (applyFixes_loop nd projectPath opts ?start w1 iss),
                  fst (snd (applyFixes_loop nd projectPath opts ?start w1 iss)),
                  calls1 @ snd (snd (applyFixes_loop nd projectPath opts ?start w1 iss)))"
    for iss
    by (simp add: applyFixes_def cc split: prod.splits)
  have all_spawn: "filter is_spawn (map (update_call projectPath opts) iss)
                     = map (update_call projectPath opts) iss" for iss
    by (induction iss) (simp_all add: is_spawn_update_call)
  have 1: "applyFixes nd w projectPath [] opts
             = (case create_config nd w projectPath of
                  (created, w1, calls1) \<Rightarrow>
                    (\<lparr>updated = [], failed = [], skipped = [], configCreated = created,
                      cargoTomlUpdated = False\<rparr>, w1, calls1))"
    by (simp add: applyFixes_def cc)
  have 3: "filter is_spawn (snd (snd (applyFixes nd w projectPath iss opts)))
             = map (update_call projectPath opts) iss" for iss
    by (simp add: run ns applyFixes_loop_calls all_spawn)
  have 4: "mset (updated (fst (applyFixes nd w projectPath issues opts))
             @ skipped (fst (applyFixes nd w projectPath issues opts))
             @ map fst (failed (fst (applyFixes nd w projectPath issues opts))))
           = mset (map issue_name issues)"
    using applyFixes_loop_names [of nd projectPath opts ?start w1 issues]
    by (simp add: run)
  have 5: "existsSync nd w (path_join nd [projectPath, ''.cargo'', ''config.toml'']) \<longrightarrow>
        applyFixes nd w projectPath [] opts
          = (\<lparr>updated = [], failed = [], skipped = [], configCreated = False,
              cargoTomlUpdated = False\<rparr>, w,
             [ExistsSync (path_join nd [projectPath, ''.cargo'', ''config.toml''])])"
    using create_config_present [of nd w projectPath] by (simp add: applyFixes_def)
  have 6: "\<not> existsSync nd w (path_join nd [projectPath, ''.cargo'', ''config.toml''])
       \<and> existsSync nd w (path_join nd [projectPath, ''.cargo'']) \<longrightarrow>
        applyFixes nd w projectPath [] opts
          = (\<lparr>updated = [], failed = [], skipped = [],
              configCreated =
                (fst (writeFileSync nd w (path_join nd [projectPath, ''.cargo'', ''config.toml''])
                        generateCargoConfig) = None),
              cargoTomlUpdated = False\<rparr>,
             snd (writeFileSync nd w (path_join nd [projectPath, ''.cargo'', ''config.toml''])
                    generateCargoConfig),
             [ExistsSync (path_join nd [projectPath, ''.cargo'', ''config.toml'']),
              ExistsSync (path_join nd [projectPath, ''.cargo'']),
              WriteFileSync (path_join nd [projectPath, ''.cargo'', ''config.toml''])
                generateCargoConfig])"
    using create_config_write [of nd w projectPath] by (simp add: applyFixes_def)
  have 7: "\<not> existsSync nd w (path_join nd [projectPath, ''.cargo'', ''config.toml''])
       \<and> \<not> existsSync nd w (path_join nd [projectPath, ''.cargo''])
       \<and> fst (mkdirSync nd w (path_join nd [projectPath, ''.cargo''])) = None \<longrightarrow>
        applyFixes nd w projectPath [] opts
          = (\<lparr>updated = [], failed = [], skipped = [],
              configCreated =
                (fst (writeFileSync nd (snd (mkdirSync nd w (path_join nd [projectPath, ''.cargo''])))
                        (path_join nd [projectPath, ''.cargo'', ''config.toml''])
                        generateCargoConfig) = None),
              cargoTomlUpdated = False\<rparr>,
             snd (writeFileSync nd (snd (mkdirSync nd w (path_join nd [projectPath, ''.cargo''])))
                    (path_join nd [projectPath, ''.cargo'', ''config.toml'']) generateCargoConfig),
             [ExistsSync (path_join nd [projectPath, ''.cargo'', ''config.toml'']),
              ExistsSync (path_join nd [projectPath, ''.cargo'']),
              MkdirSync (path_join nd [projectPath, ''.cargo'']),
              WriteFileSync (path_join nd [projectPath, ''.cargo'', ''config.toml''])
                generateCargoConfig])"
    using create_config_mkdir_write [of nd w projectPath] by (simp add: applyFixes_def)
  have 8: "\<not> existsSync nd w (path_join nd [projectPath, ''.cargo'', ''config.toml''])
       \<and> \<not> existsSync nd w (path_join nd [projectPath, ''.cargo''])
       \<and> fst (mkdirSync nd w (path_join nd [projectPath, ''.cargo''])) \<noteq> None \<longrightarrow>
        applyFixes nd w projectPath [] opts
          = (\<lparr>updated = [], failed = [], skipped = [], configCreated = False,
              cargoTomlUpdated = False\<rparr>,
             snd (mkdirSync nd w (path_join nd [projectPath, ''.cargo''])),
             [ExistsSync (path_join nd [projectPath, ''.cargo'', ''config.toml'']),
              ExistsSync (path_join nd [projectPath, ''.cargo'']),
              MkdirSync (path_join nd [projectPath, ''.cargo''])])"
    using create_config_mkdir_raises [of nd w projectPath] by (simp add: applyFixes_def)
  have w1: "fst (snd (applyFixes nd w projectPath [] opts)) = w1"
    by (simp add: run)
  have c0: "configCreated (fst (applyFixes nd w projectPath [] opts)) = created"
    by (simp add: run)
  have 9: "updated (fst (applyFixes nd w projectPath issues opts))
       = map (issue_name \<circ> fst)
           (filter (\<lambda>x. classify (snd x) = Updated)
              (zip issues (spawn_outcomes nd projectPath opts w1 issues)))"
    and 10: "skipped (fst (applyFixes nd w projectPath issues opts))
       = map (issue_name \<circ> fst)
           (filter (\<lambda>x. classify (snd x) = Skipped)
              (zip issues (spawn_outcomes nd projectPath opts w1 issues)))"
    and 11: "failed (fst (applyFixes nd w projectPath issues opts))
       = List.map_filter failure_of (zip issues (spawn_outcomes nd projectPath opts w1 issues))"
    and 12: "configCreated (fst (applyFixes nd w projectPath issues opts)) = created"
    and 13: "cargoTomlUpdated (fst (applyFixes nd w projectPath issues opts)) = False"
    using applyFixes_loop_verdicts [of nd projectPath opts ?start w1 issues]
    by (simp_all add: run)
  have 2: "filter is_spawn (snd (snd (applyFixes nd w projectPath [] opts))) = []"
    using 3 [of "[]"] by simp
  show ?thesis
    unfolding w1 c0
    using 1 2 3 [of issues] 4 5 6 7 8 9 10 11 12 13
    by (intro conjI) assumption+
qed

theorem applyFixes_attempts_every_issue_witness:
  "fst (applyFixes small_node sample_world ''proj''
          [sample_issue ''blake3'' ''1.8.3'' ''1.5.0'', sample_issue ''zeroize'' ''1.8.1'' ''1.7.0'',
           sample_issue ''subtle'' ''2.6.1'' ''2.5.0'', sample_issue ''yoke'' ''0.8.0'' ''0.7.4'']
          \<lparr>quiet = True, verbose = False\<rparr>)
     = \<lparr>updated = [''blake3''],
        failed = [(''subtle'', ''Unknown error''), (''yoke'', ''spawnSync cargo EPERM'')],
        skipped = [''zeroize''], configCreated = True, cargoTomlUpdated = False\<rparr>
   \<and> filter is_spawn (snd (snd (applyFixes small_node sample_world ''proj''
          [sample_issue ''blake3'' ''1.8.3'' ''1.5.0'', sample_issue ''zeroize'' ''1.8.1'' ''1.7.0'',
           sample_issue ''subtle'' ''2.6.1'' ''2.5.0'', sample_issue ''yoke'' ''0.8.0'' ''0.7.4'']
          \<lparr>quiet = True, verbose = False\<rparr>)))
     = [SpawnSync ''cargo'' [''update'', ''-p'', ''blake3'', ''--precise'', ''1.5.0''] ''proj'' False,
        SpawnSync ''cargo'' [''update'', ''-p'', ''zeroize'', ''--precise'', ''1.7.0''] ''proj'' False,
        SpawnSync ''cargo'' [''update'', ''-p'', ''subtle'', ''--precise'', ''2.5.0''] ''proj'' False,
        SpawnSync ''cargo'' [''update'', ''-p'', ''yoke'', ''--precise'', ''0.7.4''] ''proj'' False]
   \<and> existsSync small_node (sample_world\<lparr>files := [''proj/.cargo/config.toml'' \<mapsto> ''# kept'']\<rparr>)
        (path_join small_node [''proj'', ''.cargo'', ''config.toml''])
   \<and> applyFixes small_node (sample_world\<lparr>files := [''proj/.cargo/config.toml'' \<mapsto> ''# kept'']\<rparr>)
        ''proj'' [] \<lparr>quiet = True, verbose = False\<rparr>
     = (\<lparr>updated = [], failed = [], skipped = [], configCreated = False,
         cargoTomlUpdated = False\<rparr>,
        sample_world\<lparr>files := [''proj/.cargo/config.toml'' \<mapsto> ''# kept'']\<rparr>,
        [ExistsSync ''proj/.cargo/config.toml''])
   \<and> \<not> existsSync small_node (sample_world\<lparr>files := [''proj/.cargo'' \<mapsto> []]\<rparr>)
          (path_join small_node [''proj'', ''.cargo'', ''config.toml''])
   \<and> existsSync small_node (sample_world\<lparr>files := [''proj/.cargo'' \<mapsto> []]\<rparr>)
        (path_join small_node [''proj'', ''.cargo''])
   \<and> configCreated (fst (applyFixes small_node (sample_world\<lparr>files := [''proj/.cargo'' \<mapsto> []]\<rparr>)
        ''proj'' [] \<lparr>quiet = True, verbose = False\<rparr>))
   \<and> files (fst (snd (applyFixes small_node (sample_world\<lparr>files := [''proj/.cargo'' \<mapsto> []]\<rparr>)
        ''proj'' [] \<lparr>quiet = True, verbose = False\<rparr>))) ''proj/.cargo/config.toml''
     = Some generateCargoConfig
   \<and> snd (snd (applyFixes small_node (sample_world\<lparr>files := [''proj/.cargo'' \<mapsto> []]\<rparr>)
        ''proj'' [] \<lparr>quiet = True, verbose = False\<rparr>))
     = [ExistsSync ''proj/.cargo/config.toml'', ExistsSync ''proj/.cargo'',
        WriteFileSync ''proj/.cargo/config.toml'' generateCargoConfig]
   \<and> \<not> existsSync small_node sample_world (path_join small_node [''proj'', ''.cargo'', ''config.toml''])
   \<and> \<not> existsSync small_node sample_world (path_join small_node [''proj'', ''.cargo''])
   \<and> fst (mkdirSync small_node sample_world (path_join small_node [''proj'', ''.cargo''])) = None
   \<and> configCreated (fst (applyFixes small_node sample_world ''proj'' []
        \<lparr>quiet = True, verbose = False\<rparr>))
   \<and> files (fst (snd (applyFixes small_node sample_world ''proj'' []
        \<lparr>quiet = True, verbose = False\<rparr>))) ''proj/.cargo/config.toml''
     = Some generateCargoConfig
   \<and> snd (snd (applyFixes small_node sample_world ''proj'' [] \<lparr>quiet = True, verbose = False\<rparr>))
     = [ExistsSync ''proj/.cargo/config.toml'', ExistsSync ''proj/.cargo'',
        MkdirSync ''proj/.cargo'', WriteFileSync ''proj/.cargo/config.toml'' generateCargoConfig]
   \<and> \<not> existsSync readonly_node sample_world
          (path_join readonly_node [''proj'', ''.cargo'', ''config.toml''])
   \<and> \<not> existsSync readonly_node sample_world (path_join readonly_node [''proj'', ''.cargo''])
   \<and> fst (mkdirSync readonly_node sample_world (path_join readonly_node [''proj'', ''.cargo'']))
       \<noteq> None
   \<and> applyFixes readonly_node sample_world ''proj'' [] \<lparr>quiet = True, verbose = False\<rparr>
     = (\<lparr>updated = [], failed = [], skipped = [], configCreated = False,
         cargoTomlUpdated = False\<rparr>,
        sample_world,
        [ExistsSync ''proj/.cargo/config.toml'', ExistsSync ''proj/.cargo'',
         MkdirSync ''proj/.cargo''])"
proof -
  let ?issues = "[sample_issue ''blake3'' ''1.8.3'' ''1.5.0'', sample_issue ''zeroize'' ''1.8.1'' ''1.7.0'',
           sample_issue ''subtle'' ''2.6.1'' ''2.5.0'', sample_issue ''yoke'' ''0.8.0'' ''0.7.4'']"
  let ?opts = "\<lparr>quiet = True, verbose = False\<rparr>"
  let ?kept = "sample_world\<lparr>files := [''proj/.cargo/config.toml'' \<mapsto> ''# kept'']\<rparr>"
  let ?dir = "sample_world\<lparr>files := [''proj/.cargo'' \<mapsto> []]\<rparr>"
  note general = applyFixes_attempts_every_issue [of small_node sample_world "''proj''" ?opts ?issues]
  note kept = applyFixes_attempts_every_issue [of small_node ?kept "''proj''" ?opts "[]"]
  note dir = applyFixes_attempts_every_issue [of small_node ?dir "''proj''" ?opts "[]"]
  note refused = applyFixes_attempts_every_issue [of readonly_node sample_world "''proj''" ?opts "[]"]
  have paths: "path_join small_node [''proj'', ''.cargo'', ''config.toml''] = ''proj/.cargo/config.toml''"
    "path_join small_node [''proj'', ''.cargo''] = ''proj/.cargo''"
    "path_join readonly_node [''proj'', ''.cargo'', ''config.toml''] = ''proj/.cargo/config.toml''"
    "path_join readonly_node [''proj'', ''.cargo''] = ''proj/.cargo''"
    by (simp_all add: small_node_def readonly_node_def)
  have k: "existsSync small_node ?kept ''proj/.cargo/config.toml''"
    by (simp add: small_node_def)
  have d: "\<not> existsSync small_node ?dir ''proj/.cargo/config.toml''"
    "existsSync small_node ?dir ''proj/.cargo''"
    by (simp_all add: small_node_def)
  have s: "\<not> existsSync small_node sample_world ''proj/.cargo/config.toml''"
    "\<not> existsSync small_node sample_world ''proj/.cargo''"
    "fst (mkdirSync small_node sample_world ''proj/.cargo'') = None"
    by (simp_all add: small_node_def sample_world_def)
  have r: "\<not> existsSync readonly_node sample_world ''proj/.cargo/config.toml''"
    "\<not> existsSync readonly_node sample_world ''proj/.cargo''"
    "fst (mkdirSync readonly_node sample_world ''proj/.cargo'') \<noteq> None"
    "snd (mkdirSync readonly_node sample_world ''proj/.cargo'') = sample_world"
    by (simp_all add: readonly_node_def small_node_def sample_world_def)
  have wr: "writeFileSync small_node w p c = (None, w\<lparr>files := (files w)(p \<mapsto> c)\<rparr>)"
    "mkdirSync small_node w p = (None, w)" for w p c
    by (simp_all add: small_node_def)
  have k_run: "applyFixes small_node ?kept ''proj'' [] ?opts
     = (\<lparr>updated = [], failed = [], skipped = [], configCreated = False,
         cargoTomlUpdated = False\<rparr>, ?kept, [ExistsSync ''proj/.cargo/config.toml''])"
    using kept [THEN conjunct2, THEN conjunct2, THEN conjunct2, THEN conjunct2, THEN conjunct1] k
    by (simp add: paths)
  have d_run: "applyFixes small_node ?dir ''proj'' [] ?opts
     = (\<lparr>updated = [], failed = [], skipped = [], configCreated = True,
         cargoTomlUpdated = False\<rparr>,
        ?dir\<lparr>files := (files ?dir)(''proj/.cargo/config.toml'' \<mapsto> generateCargoConfig)\<rparr>,
        [ExistsSync ''proj/.cargo/config.toml'', ExistsSync ''proj/.cargo'',
         WriteFileSync ''proj/.cargo/config.toml'' generateCargoConfig])"
    using dir [THEN conjunct2, THEN conjunct2, THEN conjunct2, THEN conjunct2, THEN conjunct2,
               THEN conjunct1] d
    by (simp add: paths wr)
  have s_run: "applyFixes small_node sample_world ''proj'' [] ?opts
     = (\<lparr>updated = [], failed = [], skipped = [], configCreated = True,
         cargoTomlUpdated = False\<rparr>,
        sample_world\<lparr>files := (files sample_world)
                        (''proj/.cargo/config.toml'' \<mapsto> generateCargoConfig)\<rparr>,
        [ExistsSync ''proj/.cargo/config.toml'', ExistsSync ''proj/.cargo'',
         MkdirSync ''proj/.cargo'', WriteFileSync ''proj/.cargo/config.toml'' generateCargoConfig])"
    using general [THEN conjunct2, THEN conjunct2, THEN conjunct2, THEN conjunct2, THEN conjunct2,
               THEN conjunct2, THEN conjunct1] s
    by (simp add: paths wr)
  have r_run: "applyFixes readonly_node sample_world ''proj'' [] ?opts
     = (\<lparr>updated = [], failed = [], skipped = [], configCreated = False,
         cargoTomlUpdated = False\<rparr>, sample_world,
        [ExistsSync ''proj/.cargo/config.toml'', ExistsSync ''proj/.cargo'',
         MkdirSync ''proj/.cargo''])"
    using refused [THEN conjunct2, THEN conjunct2, THEN conjunct2, THEN conjunct2, THEN conjunct2,
               THEN conjunct2, THEN conjunct2, THEN conjunct1] r
    by (simp add: paths)
  have outs: "spawn_outcomes small_node ''proj'' ?opts
                (sample_world\<lparr>files := (files sample_world)
                        (''proj/.cargo/config.toml'' \<mapsto> generateCargoConfig)\<rparr>) ?issues
     = [Inr \<lparr>status = Some 0, stderr = Some []\<rparr>,
        Inr \<lparr>status = Some 101, stderr = Some ''error: package not found''\<rparr>,
        Inr \<lparr>status = None, stderr = None\<rparr>, Inl ''spawnSync cargo EPERM'']"
    by (simp add: small_node_def sample_world_def sample_issue_def)
  have verdicts:
    "classify (Inr \<lparr>status = Some 0, stderr = Some []\<rparr>) = Updated"
    "classify (Inr \<lparr>status = Some 101, stderr = Some ''error: package not found''\<rparr>) = Skipped"
    "classify (Inr \<lparr>status = None, stderr = None\<rparr>) = Failed ''Unknown error''"
    "classify (Inl ''spawnSync cargo EPERM'') = Failed ''spawnSync cargo EPERM''"
    by (simp_all add: classify_def starts_with_def)
  have names: "issue_name (sample_issue n current compatible) = n" for n current compatible
    by (simp add: sample_issue_def)
  have res: "fst (applyFixes small_node sample_world ''proj'' ?issues ?opts)
     = \<lparr>updated = [''blake3''],
        failed = [(''subtle'', ''Unknown error''), (''yoke'', ''spawnSync cargo EPERM'')],
        skipped = [''zeroize''], configCreated = True, cargoTomlUpdated = False\<rparr>"
  proof -
    have u: "updated (fst (applyFixes small_node sample_world ''proj'' ?issues ?opts)) = [''blake3'']"
      and sk: "skipped (fst (applyFixes small_node sample_world ''proj'' ?issues ?opts)) = [''zeroize'']"
      and f: "failed (fst (applyFixes small_node sample_world ''proj'' ?issues ?opts))
               = [(''subtle'', ''Unknown error''), (''yoke'', ''spawnSync cargo EPERM'')]"
      and c: "configCreated (fst (applyFixes small_node sample_world ''proj'' ?issues ?opts))"
      and t: "\<not> cargoTomlUpdated (fst (applyFixes small_node sample_world ''proj'' ?issues ?opts))"
      using general [THEN conjunct2, THEN conjunct2, THEN conjunct2, THEN conjunct2,
              THEN conjunct2, THEN conjunct2, THEN conjunct2, THEN conjunct2]
      by (simp_all add: s_run outs verdicts failure_of_def map_filter_simps names
            del: spawn_outcomes.simps)
    from u sk f c t show ?thesis
      by (cases "fst (applyFixes small_node sample_world ''proj'' ?issues ?opts)") simp
  qed
  have calls: "filter is_spawn (snd (snd (applyFixes small_node sample_world ''proj'' ?issues ?opts)))
          = map (update_call ''proj'' ?opts) ?issues"
    using general by blast
  show ?thesis
    using res calls k k_run d d_run s s_run r r_run
    by (simp add: paths update_call_def sample_issue_def)
qed

end
